theory Spec2Isabelle
  imports Main
begin

section \<open>StarUtils.js: custom star icons over a survey page\<close>

text \<open>
  The script works on the page's element tree through the DOM interface. The embedding
  keeps every element in a store addressed by reference; an element carries the fields
  the script reads and writes (tag, class names, attributes, inline style, the value of
  an input, its parent, its children and its listeners). The closures that
  \<^verbatim>\<open>_buildCustomStarsForContainer\<close> creates share the variables
  \<^verbatim>\<open>stars\<close> and \<^verbatim>\<open>selectedValue\<close>; they are kept in a
  second store of closure environments, and a listener names the environment it closes over.
\<close>

subsection \<open>Numbers as text\<close>

text \<open>
  \<^verbatim>\<open>input.value = selectedValue\<close>, \<^verbatim>\<open>i + ' estrellas'\<close> and
  \<^verbatim>\<open>spacing + 'px'\<close> turn a number into its decimal text;
  \<^verbatim>\<open>parseInt(s, 10)\<close> reads one back. Numbers are integers here, written
  with all their digits as JavaScript writes an integer below \<open>10\<^sup>2\<^sup>1\<close>; a text is
  a list of code units below 256.
\<close>

definition digit_char :: "nat \<Rightarrow> char" where
  "digit_char d = char_of (48 + d)"

function show_nat :: "nat \<Rightarrow> string" where
  "show_nat n = (if n < 10 then [digit_char n] else show_nat (n div 10) @ [digit_char (n mod 10)])"
  by pat_completeness auto
termination
  by (relation "measure id") auto

declare show_nat.simps [simp del]

definition show_int :: "int \<Rightarrow> string" where
  "show_int i = (if i < 0 then CHR ''-'' # show_nat (nat (- i)) else show_nat (nat i))"

definition is_digit :: "char \<Rightarrow> bool" where
  "is_digit c = (48 \<le> (of_char c :: nat) \<and> (of_char c :: nat) \<le> 57)"

definition is_space :: "char \<Rightarrow> bool" where
  "is_space c = ((of_char c :: nat) \<in> {9, 10, 11, 12, 13, 32, 160})"

definition digits_val :: "string \<Rightarrow> nat" where
  "digits_val ds = foldl (\<lambda>acc c. 10 * acc + ((of_char c :: nat) - 48)) 0 ds"

text \<open>
  \<^verbatim>\<open>parseInt(s, 10)\<close>: leading white space is skipped (tab, line feed, vertical
  tab, form feed, carriage return, space and no-break space are the white space below
  256), one sign is read, then the longest run of decimal digits; what follows the digits
  is ignored. With no digit the result is NaN, here \<open>None\<close>.
\<close>

definition parseInt :: "string \<Rightarrow> int option" where
  "parseInt s =
     (let t = dropWhile is_space s;
          neg = (t \<noteq> [] \<and> hd t = CHR ''-'');
          u = (if t \<noteq> [] \<and> (hd t = CHR ''-'' \<or> hd t = CHR ''+'') then tl t else t);
          ds = takeWhile is_digit u
      in if ds = [] then None
         else Some (if neg then - int (digits_val ds) else int (digits_val ds)))"

subsection \<open>Elements and the page\<close>

type_synonym ref = nat

text \<open>
  The four listeners the script installs. The first three close over the environment of
  one built control (its number) and over the loop variable \<^verbatim>\<open>i\<close>; the last
  closes over the input element and \<^verbatim>\<open>minValue\<close>.
\<close>

datatype listener =
    OnEnter nat int
  | OnLeave nat
  | OnClick nat int
  | Enforce ref int

record elem =
  tagName :: string
  className :: "string list"
  attributes :: "string \<Rightarrow> string option"
  style :: "string \<Rightarrow> string"
  src :: string
  alt :: string
  innerText :: string
  inputValue :: string
  parentNode :: "ref option"
  childNodes :: "ref list"
  listeners :: "(string \<times> listener) list"

text \<open>The variables shared by the closures of one call of the builder.\<close>

record control =
  container :: ref
  wrapper :: ref
  stars :: "ref list"
  selectedValue :: int

datatype qroot = QElem ref | QObj

datatype task =
    SpacingTask qroot int int int
  | ColorTask qroot "string list"
  | LabelsTask qroot string string
  | MinStarTask qroot int

record page =
  nodes :: "ref \<Rightarrow> elem"
  fresh :: ref
  document :: ref
  ctls :: "nat \<Rightarrow> control"
  nctls :: nat
  dispatched :: "(ref \<times> string) list"
  timers :: "(nat \<times> task) list"
  defaultStarIcon :: string

definition blank :: "string \<Rightarrow> elem" where
  "blank t = \<lparr>tagName = t, className = [], attributes = (\<lambda>_. None), style = (\<lambda>_. []),
     src = [], alt = [], innerText = [], inputValue = [], parentNode = None,
     childNodes = [], listeners = []\<rparr>"

definition upd :: "ref \<Rightarrow> (elem \<Rightarrow> elem) \<Rightarrow> page \<Rightarrow> page" where
  "upd r f s = s\<lparr>nodes := (nodes s)(r := f (nodes s r))\<rparr>"

definition createElement :: "string \<Rightarrow> page \<Rightarrow> ref \<times> page" where
  "createElement t s = (fresh s, s\<lparr>nodes := (nodes s)(fresh s := blank t), fresh := Suc (fresh s)\<rparr>)"

definition setStyle :: "ref \<Rightarrow> string \<Rightarrow> string \<Rightarrow> page \<Rightarrow> page" where
  "setStyle r k v = upd r (\<lambda>e. e\<lparr>style := (style e)(k := v)\<rparr>)"

definition setAttribute :: "ref \<Rightarrow> string \<Rightarrow> string \<Rightarrow> page \<Rightarrow> page" where
  "setAttribute r k v = upd r (\<lambda>e. e\<lparr>attributes := (attributes e)(k \<mapsto> v)\<rparr>)"

definition getAttribute :: "page \<Rightarrow> ref \<Rightarrow> string \<Rightarrow> string option" where
  "getAttribute s r k = attributes (nodes s r) k"

definition addEventListener :: "ref \<Rightarrow> string \<Rightarrow> listener \<Rightarrow> page \<Rightarrow> page" where
  "addEventListener r ev l = upd r (\<lambda>e. e\<lparr>listeners := listeners e @ [(ev, l)]\<rparr>)"

text \<open>
  \<^verbatim>\<open>input.dispatchEvent(new Event(...))\<close>. The script registers no listener for
  \<^verbatim>\<open>input\<close> or \<^verbatim>\<open>change\<close>; the events are for the host, which is not
  part of the script, so a dispatch is recorded in the page's log.
\<close>

definition dispatchEvent :: "ref \<Rightarrow> string \<Rightarrow> page \<Rightarrow> page" where
  "dispatchEvent r ev s = s\<lparr>dispatched := dispatched s @ [(r, ev)]\<rparr>"

text \<open>
  Taking a node out of its parent, as \<^verbatim>\<open>removeChild\<close> does and as
  \<^verbatim>\<open>appendChild\<close> and \<^verbatim>\<open>insertBefore\<close> do first with a node that
  has a parent.
\<close>

definition detach :: "ref \<Rightarrow> page \<Rightarrow> page" where
  "detach c s =
     (case parentNode (nodes s c) of
        None \<Rightarrow> s
      | Some p \<Rightarrow> upd c (\<lambda>e. e\<lparr>parentNode := None\<rparr>)
                  (upd p (\<lambda>e. e\<lparr>childNodes := remove1 c (childNodes e)\<rparr>) s))"

text \<open>
  \<^verbatim>\<open>p.appendChild(c)\<close>. The interface refuses a \<^verbatim>\<open>c\<close> that is an
  ancestor of \<^verbatim>\<open>p\<close>; the script appends only elements it has just created, or
  (in \<^verbatim>\<open>addLabels\<close>) an element to a new element placed beside it, so the
  refusal is left out.
\<close>

definition appendChild :: "ref \<Rightarrow> ref \<Rightarrow> page \<Rightarrow> page" where
  "appendChild p c s =
     upd c (\<lambda>e. e\<lparr>parentNode := Some p\<rparr>)
       (upd p (\<lambda>e. e\<lparr>childNodes := childNodes e @ [c]\<rparr>) (detach c s))"

text \<open>\<^verbatim>\<open>c.innerHTML = ''\<close>: every child is taken out.\<close>

definition clearChildren :: "ref \<Rightarrow> page \<Rightarrow> page" where
  "clearChildren c s =
     upd c (\<lambda>e. e\<lparr>childNodes := []\<rparr>)
       (fold (\<lambda>k. upd k (\<lambda>e. e\<lparr>parentNode := None\<rparr>)) (childNodes (nodes s c)) s)"

subsection \<open>Selectors\<close>

text \<open>
  Every selector in the script is a tag name, a class name or both
  (\<^verbatim>\<open>'tr'\<close>, \<^verbatim>\<open>'.StarsContainer'\<close>, \<^verbatim>\<open>'td.value'\<close>).
\<close>

datatype selector = Sel "string option" "string option"

fun matches :: "page \<Rightarrow> selector \<Rightarrow> ref \<Rightarrow> bool" where
  "matches s (Sel t c) r =
     ((case t of None \<Rightarrow> True | Some n \<Rightarrow> tagName (nodes s r) = n) \<and>
      (case c of None \<Rightarrow> True | Some n \<Rightarrow> n \<in> set (className (nodes s r))))"

text \<open>
  The descendants of an element in document order. The walk is bounded by the number of
  elements ever created, which no path of a tree exceeds.
\<close>

fun descendants :: "nat \<Rightarrow> page \<Rightarrow> ref \<Rightarrow> ref list" where
  "descendants 0 s r = []"
| "descendants (Suc n) s r = concat (map (\<lambda>c. c # descendants n s c) (childNodes (nodes s r)))"

text \<open>The same walk started from a list of children.\<close>

definition below :: "nat \<Rightarrow> page \<Rightarrow> ref list \<Rightarrow> ref list" where
  "below n s cs = concat (map (\<lambda>c. c # descendants n s c) cs)"

fun ancestors :: "nat \<Rightarrow> page \<Rightarrow> ref \<Rightarrow> ref list" where
  "ancestors 0 s r = []"
| "ancestors (Suc n) s r =
     (case parentNode (nodes s r) of None \<Rightarrow> [] | Some p \<Rightarrow> p # ancestors n s p)"

definition querySelectorAll :: "page \<Rightarrow> ref \<Rightarrow> selector \<Rightarrow> ref list" where
  "querySelectorAll s q sel = filter (matches s sel) (descendants (fresh s) s q)"

definition querySelector :: "page \<Rightarrow> ref \<Rightarrow> selector \<Rightarrow> ref option" where
  "querySelector s q sel = (case querySelectorAll s q sel of [] \<Rightarrow> None | x # _ \<Rightarrow> Some x)"

definition closest :: "page \<Rightarrow> ref \<Rightarrow> selector \<Rightarrow> ref option" where
  "closest s r sel = List.find (matches s sel) (r # ancestors (fresh s) s r)"

text \<open>
  \<open>document s\<close> is the root element of the page; \<^verbatim>\<open>document.getElementById\<close>
  looks at it and at everything below it, in document order.
\<close>

definition getElementById :: "page \<Rightarrow> string \<Rightarrow> ref option" where
  "getElementById s i =
     List.find (\<lambda>r. attributes (nodes s r) ''id'' = Some i)
       (document s # descendants (fresh s) s (document s))"


datatype error = TypeError | NotFoundError

text \<open>
  \<^verbatim>\<open>p.insertBefore(n, w)\<close> fails with NotFoundError unless \<^verbatim>\<open>w\<close> is a
  child of \<^verbatim>\<open>p\<close>.
\<close>

definition insertBefore :: "ref \<Rightarrow> ref \<Rightarrow> ref \<Rightarrow> page \<Rightarrow> error + page" where
  "insertBefore p n w s =
     (if w \<notin> set (childNodes (nodes s p)) then Inl NotFoundError
      else Inr (upd n (\<lambda>e. e\<lparr>parentNode := Some p\<rparr>)
             (upd p (\<lambda>e. e\<lparr>childNodes :=
                 takeWhile (\<lambda>x. x \<noteq> w) (childNodes e) @ n # dropWhile (\<lambda>x. x \<noteq> w) (childNodes e)\<rparr>)
               (detach n s))))"

definition setTimeout :: "task \<Rightarrow> nat \<Rightarrow> page \<Rightarrow> page" where
  "setTimeout t d s = s\<lparr>timers := timers s @ [(d, t)]\<rparr>"

definition px :: "int \<Rightarrow> string" where
  "px n = show_int n @ ''px''"

subsection \<open>Internal helpers\<close>

text \<open>
  What a caller can pass as \<^verbatim>\<open>questionIdOrElem\<close>: a falsy value other than a
  string, a string, an element, an object with a truthy \<^verbatim>\<open>nodeType\<close> that is no
  element, or any other truthy value.
\<close>

datatype root_arg = Nullish | IdString string | ElemRef ref | NodeLike | OtherValue

definition getQuestionContainer :: "page \<Rightarrow> root_arg \<Rightarrow> qroot option" where
  "getQuestionContainer s a =
     (case a of
        Nullish \<Rightarrow> None
      | IdString i \<Rightarrow> (if i = [] then None else map_option QElem (getElementById s i))
      | ElemRef r \<Rightarrow> Some (QElem r)
      | NodeLike \<Rightarrow> Some QObj
      | OtherValue \<Rightarrow> None)"

definition arg_of :: "qroot \<Rightarrow> root_arg" where
  "arg_of q = (case q of QElem r \<Rightarrow> ElemRef r | QObj \<Rightarrow> NodeLike)"

text \<open>
  \<^verbatim>\<open>_qsAll\<close>: on an object without \<^verbatim>\<open>querySelectorAll\<close> the call throws,
  the \<^verbatim>\<open>catch\<close> returns the empty list.
\<close>

definition qsAll :: "page \<Rightarrow> qroot \<Rightarrow> selector \<Rightarrow> ref list" where
  "qsAll s q sel = (case q of QElem r \<Rightarrow> querySelectorAll s r sel | QObj \<Rightarrow> [])"

abbreviation by_class :: "string \<Rightarrow> selector" where
  "by_class c \<equiv> Sel None (Some c)"

abbreviation by_tag :: "string \<Rightarrow> selector" where
  "by_tag t \<equiv> Sel (Some t) None"

subsection \<open>removeNativeStars\<close>

text \<open>
  \<^verbatim>\<open>el.parentNode.removeChild(el)\<close> takes \<^verbatim>\<open>el\<close> out of its own parent,
  which cannot fail; nothing else in the \<^verbatim>\<open>try\<close> block throws.
\<close>

definition removeFirst :: "ref \<Rightarrow> selector \<Rightarrow> page \<Rightarrow> page" where
  "removeFirst c sel s =
     (case querySelector s c sel of
        None \<Rightarrow> s
      | Some el \<Rightarrow> (case parentNode (nodes s el) of None \<Rightarrow> s | Some p \<Rightarrow> detach el s))"

definition stripContainer :: "ref \<Rightarrow> page \<Rightarrow> page" where
  "stripContainer c s =
     setStyle c ''background'' ''none''
       (clearChildren c
         (fold (removeFirst c)
            [by_class ''StarTrack'', by_class ''Filled'', by_class ''StarsEventWatcher'',
             by_class ''handle''] s))"

definition removeNativeStars :: "page \<Rightarrow> root_arg \<Rightarrow> page" where
  "removeNativeStars s a =
     (case getQuestionContainer s a of
        None \<Rightarrow> s
      | Some q \<Rightarrow> fold stripContainer (qsAll s q (by_class ''StarsContainer'')) s)"

subsection \<open>The builder and its listeners\<close>

record build_opts =
  o_spacing :: int
  o_starSize :: int
  o_numStars :: int
  o_starIcon :: "string option"

datatype built = Null | Container ref | Control nat

definition updateVisual :: "nat \<Rightarrow> int \<Rightarrow> page \<Rightarrow> page" where
  "updateVisual k v s =
     fold (\<lambda>(idx, st). setStyle st ''opacity'' (if int idx < v then ''1'' else ''0.35''))
       (enumerate 0 (stars (ctls s k))) s"

definition setSelectedValue :: "nat \<Rightarrow> int \<Rightarrow> page \<Rightarrow> page" where
  "setSelectedValue k v s = s\<lparr>ctls := (ctls s)(k := (ctls s k)\<lparr>selectedValue := v\<rparr>)\<rparr>"

definition pushStar :: "nat \<Rightarrow> ref \<Rightarrow> page \<Rightarrow> page" where
  "pushStar k img s = s\<lparr>ctls := (ctls s)(k := (ctls s k)\<lparr>stars := stars (ctls s k) @ [img]\<rparr>)\<rparr>"

text \<open>One turn of the loop \<^verbatim>\<open>for (let i = 1; i <= numStars; i++)\<close>.\<close>

definition addStar :: "nat \<Rightarrow> ref \<Rightarrow> string \<Rightarrow> int \<Rightarrow> int \<Rightarrow> page \<Rightarrow> page" where
  "addStar k w icon sz i s =
     (let (img, s1) = createElement ''img'' s;
          s2 = upd img (\<lambda>e. e\<lparr>src := icon, alt := show_int i @ '' estrellas'',
                               className := [''starutils-star'']\<rparr>) s1;
          s3 = setStyle img ''width'' (px sz) s2;
          s4 = setStyle img ''height'' (px sz) s3;
          s5 = setStyle img ''cursor'' ''pointer'' s4;
          s6 = setStyle img ''opacity'' ''0.35'' s5;
          s7 = setStyle img ''transition'' ''opacity 0.15s ease'' s6;
          s8 = setAttribute img ''data-value'' (show_int i) s7;
          s9 = addEventListener img ''mouseenter'' (OnEnter k i) s8;
          s10 = addEventListener img ''mouseleave'' (OnLeave k) s9;
          s11 = addEventListener img ''click'' (OnClick k i) s10;
          s12 = appendChild w img s11
      in pushStar k img s12)"

text \<open>The loop after \<open>n\<close> turns, \<^verbatim>\<open>i\<close> running from 1 to \<open>n\<close>.\<close>

primrec starLoop :: "nat \<Rightarrow> nat \<Rightarrow> ref \<Rightarrow> string \<Rightarrow> int \<Rightarrow> page \<Rightarrow> page" where
  "starLoop 0 k w icon sz s = s"
| "starLoop (Suc n) k w icon sz s = addStar k w icon sz (int (Suc n)) (starLoop n k w icon sz s)"

definition buildCustomStarsForContainer :: "page \<Rightarrow> ref option \<Rightarrow> build_opts \<Rightarrow> built \<times> page" where
  "buildCustomStarsForContainer s cont opts =
     (let starIcon = (case o_starIcon opts of
                        None \<Rightarrow> defaultStarIcon s
                      | Some u \<Rightarrow> if u = [] then defaultStarIcon s else u)
      in case cont of
           None \<Rightarrow> (Null, s)
         | Some c \<Rightarrow>
             if getAttribute s c ''data-starutils-built'' = Some ''1'' then (Container c, s)
             else
               (let s1 = setAttribute c ''data-starutils-built'' ''1'' s;
                    (w, s2) = createElement ''div'' s1;
                    s3 = upd w (\<lambda>e. e\<lparr>className := [''starutils-wrapper'']\<rparr>) s2;
                    s4 = setStyle w ''display'' ''inline-flex'' s3;
                    s5 = setStyle w ''alignItems'' ''center'' s4;
                    s6 = setStyle w ''justifyContent'' ''flex-start'' s5;
                    s7 = setStyle w ''gap'' (px (o_spacing opts)) s6;
                    s8 = setStyle w ''height'' (px (o_starSize opts)) s7;
                    s9 = setStyle w ''pointerEvents'' ''auto'' s8;
                    k = nctls s9;
                    s10 = s9\<lparr>ctls := (ctls s9)(k := \<lparr>container = c, wrapper = w, stars = [],
                                                       selectedValue = 0\<rparr>),
                             nctls := Suc k\<rparr>;
                    s11 = starLoop (nat (o_numStars opts)) k w starIcon (o_starSize opts) s10;
                    s12 = appendChild c w s11
                in (Control k, s12)))"

text \<open>The click listener of the icon with number \<open>i\<close>.\<close>

definition starClick :: "nat \<Rightarrow> int \<Rightarrow> page \<Rightarrow> page" where
  "starClick k i s =
     (let s1 = setSelectedValue k i s;
          s2 = (case closest s1 (container (ctls s1 k)) (by_tag ''tr'') of
                  None \<Rightarrow> s1
                | Some tr \<Rightarrow>
                    (case querySelector s1 tr (by_class ''ResultsInput'') of
                       None \<Rightarrow> s1
                     | Some inp \<Rightarrow>
                         dispatchEvent inp ''change''
                           (dispatchEvent inp ''input''
                             (upd inp (\<lambda>e. e\<lparr>inputValue := show_int (selectedValue (ctls s1 k))\<rparr>) s1))))
      in updateVisual k (selectedValue (ctls s2 k)) s2)"

text \<open>
  \<^verbatim>\<open>enforce\<close>: a comparison with NaN is false, so nothing is written when
  \<^verbatim>\<open>parseInt\<close> finds no digit.
\<close>

definition enforce :: "ref \<Rightarrow> int \<Rightarrow> page \<Rightarrow> page" where
  "enforce inp minValue s =
     (let v = parseInt (if inputValue (nodes s inp) = [] then ''0'' else inputValue (nodes s inp))
      in if (case v of None \<Rightarrow> False | Some n \<Rightarrow> n < minValue)
         then upd inp (\<lambda>e. e\<lparr>inputValue := show_int minValue\<rparr>) s
         else s)"

fun run_listener :: "listener \<Rightarrow> page \<Rightarrow> page" where
  "run_listener (OnEnter k i) s = updateVisual k i s"
| "run_listener (OnLeave k) s = updateVisual k (selectedValue (ctls s k)) s"
| "run_listener (OnClick k i) s = starClick k i s"
| "run_listener (Enforce inp m) s = enforce inp m s"

text \<open>The listeners registered on an element for an event, in the order of registration.\<close>

definition handlers :: "page \<Rightarrow> ref \<Rightarrow> string \<Rightarrow> listener list" where
  "handlers s r ev = map snd (filter (\<lambda>(e, l). e = ev) (listeners (nodes s r)))"

text \<open>An event that has arrived at an element runs the listeners registered there for it.\<close>

definition fireAt :: "ref \<Rightarrow> string \<Rightarrow> page \<Rightarrow> page" where
  "fireAt r ev s = fold run_listener (handlers s r ev) s"

text \<open>
  Of the events of the browser that the script listens to, \<^verbatim>\<open>click\<close> bubbles;
  \<^verbatim>\<open>mouseenter\<close>, \<^verbatim>\<open>mouseleave\<close> and \<^verbatim>\<open>blur\<close> do not.
\<close>

definition bubbles :: "string \<Rightarrow> bool" where
  "bubbles ev \<longleftrightarrow> ev \<notin> set [''mouseenter'', ''mouseleave'', ''blur'', ''focus'']"

text \<open>
  An event of the browser on the element \<open>r\<close>. Its path is fixed when it is dispatched:
  \<open>r\<close> and, for an event that bubbles, the elements above \<open>r\<close> from its parent up to
  the root. The listeners of the elements on the path run in that order; the script
  registers none for the capture phase and none stops the propagation. So a click on an
  icon runs the click listener of the icon and then the click listeners of the wrapper,
  of the stars container (where \<^verbatim>\<open>enforceMinStar\<close> puts its check) and of
  everything above it.
\<close>

definition fire :: "ref \<Rightarrow> string \<Rightarrow> page \<Rightarrow> page" where
  "fire r ev s =
     (if bubbles ev then fold (\<lambda>x. fireAt x ev) (r # ancestors (fresh s) s r) s
      else fireAt r ev s)"


subsection \<open>applySpacing\<close>

text \<open>
  The options object of \<^verbatim>\<open>applySpacing\<close>; a field is \<open>None\<close> when it is
  undefined or null. The argument itself is \<open>None\<close> when the caller passes undefined
  or null, and then \<^verbatim>\<open>options.spacing\<close> throws a TypeError.
\<close>

record spacing_options =
  spacing :: "int option"
  starSize :: "int option"
  numStars :: "int option"

definition spacingRow :: "int \<Rightarrow> int \<Rightarrow> int \<Rightarrow> ref \<Rightarrow> page \<Rightarrow> page" where
  "spacingRow sp sz n c s =
     (let s1 = clearChildren c s;
          s2 = setStyle c ''display'' ''inline-block'' s1;
          s3 = setStyle c ''verticalAlign'' ''middle'' s2;
          s4 = snd (buildCustomStarsForContainer s3 (Some c)
                 \<lparr>o_spacing = sp, o_starSize = sz, o_numStars = n, o_starIcon = None\<rparr>);
          totalWidth = n * sz + (n - 1) * sp
      in case closest s4 c (by_tag ''tr'') of
           None \<Rightarrow> s4
         | Some tr \<Rightarrow>
             (let s5 = (case querySelector s4 tr (Sel (Some ''td'') (Some ''value'')) of
                          None \<Rightarrow> s4
                        | Some resultTd \<Rightarrow> setStyle resultTd ''paddingLeft'' (px (totalWidth - 60)) s4);
                  controlTd = (case querySelector s5 tr (Sel (Some ''td'') (Some ''control'')) of
                                 Some t \<Rightarrow> Some t
                               | None \<Rightarrow> querySelector s5 tr (Sel (Some ''td'') (Some ''BarOuter'')))
              in case controlTd of
                   None \<Rightarrow> s5
                 | Some t \<Rightarrow> setStyle t ''whiteSpace'' ''nowrap''
                               (setStyle t ''minWidth'' (px totalWidth) s5)))"

text \<open>The function that \<^verbatim>\<open>applySpacing\<close> hands to \<^verbatim>\<open>setTimeout\<close>.\<close>

definition spacingTask :: "qroot \<Rightarrow> int \<Rightarrow> int \<Rightarrow> int \<Rightarrow> page \<Rightarrow> page" where
  "spacingTask q sp sz n s =
     (let s1 = removeNativeStars s (arg_of q)
      in fold (spacingRow sp sz n) (qsAll s1 q (by_class ''StarsContainer'')) s1)"

definition applySpacing :: "page \<Rightarrow> root_arg \<Rightarrow> spacing_options option \<Rightarrow> error + page" where
  "applySpacing s a options =
     (case options of
        None \<Rightarrow> Inl TypeError
      | Some opts \<Rightarrow>
          (let sp = (case spacing opts of None \<Rightarrow> 20 | Some v \<Rightarrow> v);
               sz = (case starSize opts of None \<Rightarrow> 30 | Some v \<Rightarrow> v);
               n = (case numStars opts of None \<Rightarrow> 5 | Some v \<Rightarrow> v)
           in case getQuestionContainer s a of
                None \<Rightarrow> Inr s
              | Some q \<Rightarrow> Inr (setTimeout (SpacingTask q sp sz n) 300 s)))"

subsection \<open>applyColorGradient\<close>

text \<open>
  \<^verbatim>\<open>colors[idx] || colors[colors.length - 1]\<close>: an index past the end reads
  undefined (\<open>None\<close>), and so does index \<open>-1\<close> of an empty list; the empty string is
  falsy.
\<close>

definition colorAt :: "string list \<Rightarrow> nat \<Rightarrow> string option" where
  "colorAt colors idx =
     (if idx < length colors \<and> colors ! idx \<noteq> [] then Some (colors ! idx)
      else if colors = [] then None else Some (last colors))"

definition js_text :: "string option \<Rightarrow> string" where
  "js_text v = (case v of None \<Rightarrow> ''undefined'' | Some t \<Rightarrow> t)"

text \<open>The inline style keeps the text assigned to it; whether it is valid CSS is not modelled.\<close>

definition paint :: "string list \<Rightarrow> nat \<times> ref \<Rightarrow> page \<Rightarrow> page" where
  "paint colors p s =
     (let color = colorAt colors (fst p)
      in setStyle (snd p) ''boxShadow'' (''0 0 0 2px '' @ js_text color @ '' inset'')
           (setStyle (snd p) ''backgroundColor'' (js_text color) s))"

definition colorTask :: "qroot \<Rightarrow> string list \<Rightarrow> page \<Rightarrow> error + page" where
  "colorTask q colors s =
     (case q of
        QObj \<Rightarrow> Inl TypeError
      | QElem r \<Rightarrow>
          Inr (fold (paint colors)
                 (enumerate 0 (querySelectorAll s r (Sel (Some ''img'') (Some ''starutils-star'')))) s))"

definition applyColorGradient :: "page \<Rightarrow> root_arg \<Rightarrow> string list option option \<Rightarrow> error + page" where
  "applyColorGradient s a options =
     (case options of
        None \<Rightarrow> Inl TypeError
      | Some given \<Rightarrow>
          (let colors = (case given of
                           None \<Rightarrow> [''#ff6666'', ''#ff9a4d'', ''#ffd166'', ''#8be28b'', ''#66c2ff'']
                         | Some cs \<Rightarrow> cs)
           in case getQuestionContainer s a of
                None \<Rightarrow> Inr s
              | Some q \<Rightarrow> Inr (setTimeout (ColorTask q colors) 200 s)))"

subsection \<open>addLabels\<close>

record label_options =
  leftText :: "string option"
  rightText :: "string option"

definition labelStep :: "string \<Rightarrow> string \<Rightarrow> ref \<Rightarrow> page \<Rightarrow> error + page" where
  "labelStep lt rt w s =
     (case parentNode (nodes s w) of
        None \<Rightarrow> Inl TypeError
      | Some p \<Rightarrow>
          if ''star-flex-wrapper'' \<in> set (className (nodes s p)) then Inr s
          else
            (let (flexWrap, s1) = createElement ''div'' s;
                 s2 = upd flexWrap (\<lambda>e. e\<lparr>className := [''star-flex-wrapper'']\<rparr>) s1;
                 s3 = setStyle flexWrap ''display'' ''flex'' s2;
                 s4 = setStyle flexWrap ''alignItems'' ''center'' s3;
                 s5 = setStyle flexWrap ''justifyContent'' ''center'' s4;
                 s6 = setStyle flexWrap ''gap'' ''20px'' s5;
                 s7 = setStyle flexWrap ''width'' ''100%'' s6;
                 s8 = setStyle flexWrap ''margin'' ''8px 0'' s7;
                 (left, s9) = createElement ''span'' s8;
                 s10 = upd left (\<lambda>e. e\<lparr>className := [''star-label-left''], innerText := lt\<rparr>) s9;
                 s11 = setStyle left ''width'' ''120px'' s10;
                 s12 = setStyle left ''textAlign'' ''right'' s11;
                 s13 = setStyle left ''whiteSpace'' ''nowrap'' s12;
                 (right, s14) = createElement ''span'' s13;
                 s15 = upd right (\<lambda>e. e\<lparr>className := [''star-label-right''], innerText := rt\<rparr>) s14;
                 s16 = setStyle right ''width'' ''120px'' s15;
                 s17 = setStyle right ''textAlign'' ''left'' s16;
                 s18 = setStyle right ''whiteSpace'' ''nowrap'' s17
             in case insertBefore p flexWrap w s18 of
                  Inl e \<Rightarrow> Inl e
                | Inr s19 \<Rightarrow>
                    Inr (appendChild flexWrap right
                          (appendChild flexWrap w
                            (appendChild flexWrap left s19)))))"

fun labelLoop :: "string \<Rightarrow> string \<Rightarrow> ref list \<Rightarrow> page \<Rightarrow> error + page" where
  "labelLoop lt rt [] s = Inr s"
| "labelLoop lt rt (w # ws) s =
     (case labelStep lt rt w s of Inl e \<Rightarrow> Inl e | Inr s' \<Rightarrow> labelLoop lt rt ws s')"

definition labelsTask :: "qroot \<Rightarrow> string \<Rightarrow> string \<Rightarrow> page \<Rightarrow> error + page" where
  "labelsTask q lt rt s = labelLoop lt rt (qsAll s q (by_class ''starutils-wrapper'')) s"

text \<open>
  A field of the options is \<open>None\<close> when it is not a string; a missing options object is
  replaced by the empty one.
\<close>

definition addLabels :: "page \<Rightarrow> root_arg \<Rightarrow> label_options option \<Rightarrow> error + page" where
  "addLabels s a options =
     (let opts = (case options of None \<Rightarrow> \<lparr>leftText = None, rightText = None\<rparr> | Some x \<Rightarrow> x);
          lt = (case leftText opts of None \<Rightarrow> ''Muy insatisfecho'' | Some t \<Rightarrow> t);
          rt = (case rightText opts of None \<Rightarrow> ''Muy satisfecho'' | Some t \<Rightarrow> t)
      in case getQuestionContainer s a of
           None \<Rightarrow> Inr s
         | Some q \<Rightarrow> Inr (setTimeout (LabelsTask q lt rt) 300 s))"

subsection \<open>enforceMinStar and setStarIcon\<close>

definition minStarRow :: "int \<Rightarrow> ref \<Rightarrow> page \<Rightarrow> page" where
  "minStarRow m tr s =
     (case querySelector s tr (by_class ''ResultsInput'') of
        None \<Rightarrow> s
      | Some inp \<Rightarrow>
          (let s1 = addEventListener inp ''blur'' (Enforce inp m) s
           in case querySelector s1 tr (by_class ''StarsContainer'') of
                None \<Rightarrow> s1
              | Some c \<Rightarrow> addEventListener c ''click'' (Enforce inp m) s1))"

definition minStarTask :: "qroot \<Rightarrow> int \<Rightarrow> page \<Rightarrow> page" where
  "minStarTask q m s = fold (minStarRow m) (qsAll s q (by_tag ''tr'')) s"

definition enforceMinStar :: "page \<Rightarrow> root_arg \<Rightarrow> int option \<Rightarrow> error + page" where
  "enforceMinStar s a minValue =
     (let m = (case minValue of None \<Rightarrow> 1 | Some v \<Rightarrow> v)
      in case getQuestionContainer s a of
           None \<Rightarrow> Inr s
         | Some q \<Rightarrow> Inr (setTimeout (MinStarTask q m) 300 s))"

definition setStarIcon :: "page \<Rightarrow> string option \<Rightarrow> page" where
  "setStarIcon s url =
     (case url of None \<Rightarrow> s | Some u \<Rightarrow> if u = [] then s else s\<lparr>defaultStarIcon := u\<rparr>)"

text \<open>Running a function that was handed to \<^verbatim>\<open>setTimeout\<close>.\<close>

fun run_task :: "task \<Rightarrow> page \<Rightarrow> error + page" where
  "run_task (SpacingTask q sp sz n) s = Inr (spacingTask q sp sz n s)"
| "run_task (ColorTask q colors) s = colorTask q colors s"
| "run_task (LabelsTask q lt rt) s = labelsTask q lt rt s"
| "run_task (MinStarTask q m) s = Inr (minStarTask q m s)"

subsection \<open>What a user does with a control\<close>

text \<open>
  The pointer enters or leaves the icon at a position of control \<open>k\<close> (positions count
  from 0, so position \<open>j\<close> is the icon with number \<open>j + 1\<close>), or the icon is clicked.
  Each gesture is the browser's event on that icon: \<^verbatim>\<open>mouseenter\<close> and
  \<^verbatim>\<open>mouseleave\<close> run the listeners of the icon, a \<^verbatim>\<open>click\<close> runs them and
  then bubbles through the elements above the icon.
\<close>

datatype gesture = Enter nat | Leave nat | Click nat

fun position :: "gesture \<Rightarrow> nat" where
  "position (Enter j) = j"
| "position (Leave j) = j"
| "position (Click j) = j"

fun event_of :: "gesture \<Rightarrow> string" where
  "event_of (Enter j) = ''mouseenter''"
| "event_of (Leave j) = ''mouseleave''"
| "event_of (Click j) = ''click''"

definition gesture :: "nat \<Rightarrow> gesture \<Rightarrow> page \<Rightarrow> page" where
  "gesture k g s =
     (if position g < length (stars (ctls s k))
      then fire (stars (ctls s k) ! position g) (event_of g) s else s)"

text \<open>The number of the icon clicked last, 0 when none was clicked.\<close>

fun lastActivated :: "gesture list \<Rightarrow> nat" where
  "lastActivated [] = 0"
| "lastActivated (g # gs) =
     (if lastActivated gs \<noteq> 0 then lastActivated gs
      else case g of Click j \<Rightarrow> Suc j | _ \<Rightarrow> 0)"

text \<open>
  A control is wired when its icons are distinct elements and the icon at position \<open>m\<close>
  carries the three listeners the builder gave it.
\<close>

definition wired :: "nat \<Rightarrow> page \<Rightarrow> bool" where
  "wired k s \<longleftrightarrow>
     distinct (stars (ctls s k)) \<and>
     (\<forall>m < length (stars (ctls s k)).
        listeners (nodes s (stars (ctls s k) ! m)) =
          [(''mouseenter'', OnEnter k (int (Suc m))), (''mouseleave'', OnLeave k),
           (''click'', OnClick k (int (Suc m)))])"

text \<open>
  The listeners of \<^verbatim>\<open>enforceMinStar\<close>. They are the only listeners that the script
  puts on an element that is not an icon.
\<close>

fun is_enforce :: "listener \<Rightarrow> bool" where
  "is_enforce (Enforce inp m) = True"
| "is_enforce _ = False"

text \<open>
  An element is quiet when the click listeners on it and on the elements above it are
  all listeners of \<^verbatim>\<open>enforceMinStar\<close>.
\<close>

definition quiet :: "page \<Rightarrow> ref \<Rightarrow> bool" where
  "quiet s c \<longleftrightarrow>
     (\<forall>x \<in> set (c # ancestors (fresh s) s c). list_all is_enforce (handlers s x ''click''))"

text \<open>
  A control is calm when a click on any of its icons meets, above the icon, only
  listeners of \<^verbatim>\<open>enforceMinStar\<close>.
\<close>

definition calm :: "nat \<Rightarrow> page \<Rightarrow> bool" where
  "calm k s \<longleftrightarrow>
     (\<forall>r \<in> set (stars (ctls s k)). \<forall>x \<in> set (ancestors (fresh s) s r).
        list_all is_enforce (handlers s x ''click''))"

text \<open>Two pages that differ at most in the values of their inputs.\<close>

definition sameButValues :: "page \<Rightarrow> page \<Rightarrow> bool" where
  "sameButValues s t \<longleftrightarrow>
     fresh t = fresh s \<and> ctls t = ctls s \<and> nctls t = nctls s \<and> dispatched t = dispatched s \<and>
     (\<forall>x. tagName (nodes t x) = tagName (nodes s x) \<and>
          className (nodes t x) = className (nodes s x) \<and>
          attributes (nodes t x) = attributes (nodes s x) \<and>
          style (nodes t x) = style (nodes s x) \<and>
          parentNode (nodes t x) = parentNode (nodes s x) \<and>
          childNodes (nodes t x) = childNodes (nodes s x) \<and>
          listeners (nodes t x) = listeners (nodes s x))"

text \<open>A container that is marked as built and has no children.\<close>

definition built_empty :: "ref \<Rightarrow> page \<Rightarrow> bool" where
  "built_empty c s \<longleftrightarrow>
     c < fresh s \<and> getAttribute s c ''data-starutils-built'' = Some ''1'' \<and>
     childNodes (nodes s c) = []"

subsection \<open>The elements the builder leaves\<close>

text \<open>
  The icon that one turn of the loop creates, and the wrapper after the loop, written out
  field by field; \<open>build_star\<close> and \<open>build_wrapper\<close> below prove that the builder
  leaves exactly these.
\<close>

definition starElem :: "nat \<Rightarrow> ref \<Rightarrow> string \<Rightarrow> int \<Rightarrow> int \<Rightarrow> elem" where
  "starElem k w icon sz i =
     \<lparr>tagName = ''img'', className = [''starutils-star''],
      attributes = [''data-value'' \<mapsto> show_int i],
      style = (\<lambda>_. [])(''width'' := px sz, ''height'' := px sz, ''cursor'' := ''pointer'',
                ''opacity'' := ''0.35'', ''transition'' := ''opacity 0.15s ease''),
      src = icon, alt = show_int i @ '' estrellas'', innerText = [], inputValue = [],
      parentNode = Some w, childNodes = [],
      listeners = [(''mouseenter'', OnEnter k i), (''mouseleave'', OnLeave k), (''click'', OnClick k i)]\<rparr>"

definition wrapperElem :: "ref \<Rightarrow> int \<Rightarrow> int \<Rightarrow> ref list \<Rightarrow> elem" where
  "wrapperElem c sp sz kids =
     \<lparr>tagName = ''div'', className = [''starutils-wrapper''], attributes = (\<lambda>_. None),
      style = (\<lambda>_. [])(''display'' := ''inline-flex'', ''alignItems'' := ''center'',
                ''justifyContent'' := ''flex-start'', ''gap'' := px sp, ''height'' := px sz,
                ''pointerEvents'' := ''auto''),
      src = [], alt = [], innerText = [], inputValue = [],
      parentNode = Some c, childNodes = kids, listeners = []\<rparr>"

definition iconOf :: "page \<Rightarrow> build_opts \<Rightarrow> string" where
  "iconOf s opts = (case o_starIcon opts of None \<Rightarrow> defaultStarIcon s
                     | Some u \<Rightarrow> if u = [] then defaultStarIcon s else u)"

subsection \<open>The elements addLabels leaves\<close>

text \<open>
  The flex wrapper and the two labels that \<^verbatim>\<open>addLabels\<close> creates for one stars
  wrapper, written out field by field.
\<close>

definition flexElem :: "ref \<Rightarrow> ref list \<Rightarrow> elem" where
  "flexElem p kids =
     \<lparr>tagName = ''div'', className = [''star-flex-wrapper''], attributes = (\<lambda>_. None),
      style = (\<lambda>_. [])(''display'' := ''flex'', ''alignItems'' := ''center'',
                ''justifyContent'' := ''center'', ''gap'' := ''20px'', ''width'' := ''100%'',
                ''margin'' := ''8px 0''),
      src = [], alt = [], innerText = [], inputValue = [],
      parentNode = Some p, childNodes = kids, listeners = []\<rparr>"

definition labelElem :: "string \<Rightarrow> string \<Rightarrow> string \<Rightarrow> ref \<Rightarrow> elem" where
  "labelElem cls align txt f =
     \<lparr>tagName = ''span'', className = [cls], attributes = (\<lambda>_. None),
      style = (\<lambda>_. [])(''width'' := ''120px'', ''textAlign'' := align, ''whiteSpace'' := ''nowrap''),
      src = [], alt = [], innerText = txt, inputValue = [],
      parentNode = Some f, childNodes = [], listeners = []\<rparr>"

text \<open>
  The page when the three elements are created and styled but not yet inserted
  (\<open>label_chain\<close> below proves that the statements of \<^verbatim>\<open>addLabels\<close> leave it).
\<close>

definition labelPrep :: "string \<Rightarrow> string \<Rightarrow> page \<Rightarrow> page" where
  "labelPrep lt rt t =
     t\<lparr>nodes := (nodes t)
          (fresh t := (flexElem 0 [])\<lparr>parentNode := None\<rparr>,
           Suc (fresh t) := (labelElem ''star-label-left'' ''right'' lt 0)\<lparr>parentNode := None\<rparr>,
           Suc (Suc (fresh t)) := (labelElem ''star-label-right'' ''left'' rt 0)\<lparr>parentNode := None\<rparr>),
       fresh := Suc (Suc (Suc (fresh t)))\<rparr>"






subsection \<open>A page to run the script on\<close>

text \<open>
  One question \<^verbatim>\<open>QID1\<close> with one row: a control cell holding the native stars
  container (with its track) and a value cell holding the native input.
  \<^verbatim>\<open>
  0 html > 1 body > 2 div#QID1 > 3 tr > 4 td.control > 5 div.StarsContainer > 7 div.StarTrack
                                      > 6 td.value   > 8 input.ResultsInput
  \<close>
\<close>

definition demo :: page where
  "demo =
     \<lparr>nodes = (\<lambda>_. blank [])
        (0 := (blank ''html'')\<lparr>childNodes := [1]\<rparr>,
         1 := (blank ''body'')\<lparr>parentNode := Some 0, childNodes := [2]\<rparr>,
         2 := (blank ''div'')\<lparr>attributes := [''id'' \<mapsto> ''QID1''], parentNode := Some 1,
                                childNodes := [3]\<rparr>,
         3 := (blank ''tr'')\<lparr>parentNode := Some 2, childNodes := [4, 6]\<rparr>,
         4 := (blank ''td'')\<lparr>className := [''control''], parentNode := Some 3, childNodes := [5]\<rparr>,
         5 := (blank ''div'')\<lparr>className := [''StarsContainer''], parentNode := Some 4,
                                childNodes := [7]\<rparr>,
         6 := (blank ''td'')\<lparr>className := [''value''], parentNode := Some 3, childNodes := [8]\<rparr>,
         7 := (blank ''div'')\<lparr>className := [''StarTrack''], parentNode := Some 5\<rparr>,
         8 := (blank ''input'')\<lparr>className := [''ResultsInput''], parentNode := Some 6\<rparr>),
      fresh = 9, document = 0,
      ctls = (\<lambda>_. \<lparr>container = 0, wrapper = 0, stars = [], selectedValue = 0\<rparr>),
      nctls = 0, dispatched = [], timers = [],
      defaultStarIcon = ''https://cdn.jsdelivr.net/gh/twitter/twemoji@14.0.2/assets/svg/2b50.svg''\<rparr>"

definition demo_opts :: build_opts where
  "demo_opts = \<lparr>o_spacing = 20, o_starSize = 30, o_numStars = 5, o_starIcon = None\<rparr>"

text \<open>
  The page after \<^verbatim>\<open>StarUtils.enforceMinStar('QID1', m)\<close> and its timer: the input
  and the stars container carry the check.
\<close>

definition demo_min :: "int \<Rightarrow> page" where
  "demo_min m = minStarTask (QElem 2) m demo"

text \<open>That page after the builder has run on the stars container.\<close>

abbreviation demo_min_built :: "int \<Rightarrow> page" where
  "demo_min_built m \<equiv> snd (buildCustomStarsForContainer (demo_min m) (Some 5) demo_opts)"

text \<open>
  A question with two rows, as in a matrix, each with its stars container.
  \<^verbatim>\<open>
  0 html > 1 body > 2 div#QID1 > 3 tr > 4 td.control > 5 div.StarsContainer
                               > 6 tr > 7 td.control > 8 div.StarsContainer
  \<close>
\<close>

definition matrix :: page where
  "matrix =
     \<lparr>nodes = (\<lambda>_. blank [])
        (0 := (blank ''html'')\<lparr>childNodes := [1]\<rparr>,
         1 := (blank ''body'')\<lparr>parentNode := Some 0, childNodes := [2]\<rparr>,
         2 := (blank ''div'')\<lparr>attributes := [''id'' \<mapsto> ''QID1''], parentNode := Some 1,
                                childNodes := [3, 6]\<rparr>,
         3 := (blank ''tr'')\<lparr>parentNode := Some 2, childNodes := [4]\<rparr>,
         4 := (blank ''td'')\<lparr>className := [''control''], parentNode := Some 3, childNodes := [5]\<rparr>,
         5 := (blank ''div'')\<lparr>className := [''StarsContainer''], parentNode := Some 4\<rparr>,
         6 := (blank ''tr'')\<lparr>parentNode := Some 2, childNodes := [7]\<rparr>,
         7 := (blank ''td'')\<lparr>className := [''control''], parentNode := Some 6, childNodes := [8]\<rparr>,
         8 := (blank ''div'')\<lparr>className := [''StarsContainer''], parentNode := Some 7\<rparr>),
      fresh = 9, document = 0,
      ctls = (\<lambda>_. \<lparr>container = 0, wrapper = 0, stars = [], selectedValue = 0\<rparr>),
      nctls = 0, dispatched = [], timers = [],
      defaultStarIcon = ''https://cdn.jsdelivr.net/gh/twitter/twemoji@14.0.2/assets/svg/2b50.svg''\<rparr>"

text \<open>The matrix after the builder has run on its first row and then on its second.\<close>

definition matrix_built :: page where
  "matrix_built =
     snd (buildCustomStarsForContainer
            (snd (buildCustomStarsForContainer matrix (Some 5) demo_opts)) (Some 8) demo_opts)"

text \<open>The page after the user has typed \<open>v\<close> into the native input.\<close>

definition demo_typed :: "string \<Rightarrow> page" where
  "demo_typed v = upd 8 (\<lambda>e. e\<lparr>inputValue := v\<rparr>) demo"

section \<open>Properties\<close>

subsection \<open>The store\<close>

lemma nodes_upd [simp]: "nodes (upd r f s) x = (if x = r then f (nodes s x) else nodes s x)"
  and fresh_upd [simp]: "fresh (upd r f s) = fresh s"
  and ctls_upd [simp]: "ctls (upd r f s) = ctls s"
  and nctls_upd [simp]: "nctls (upd r f s) = nctls s"
  and dispatched_upd [simp]: "dispatched (upd r f s) = dispatched s"
  and timers_upd [simp]: "timers (upd r f s) = timers s"
  and document_upd [simp]: "document (upd r f s) = document s"
  and icon_upd [simp]: "defaultStarIcon (upd r f s) = defaultStarIcon s"
  by (simp_all add: upd_def)

lemmas star_defs = addStar_def setStyle_def setAttribute_def addEventListener_def
      createElement_def appendChild_def detach_def blank_def pushStar_def Let_def

lemma addStar_fresh [simp]: "fresh (addStar k w icon sz i s) = Suc (fresh s)"
  by (simp add: star_defs)

lemma addStar_nctls [simp]: "nctls (addStar k w icon sz i s) = nctls s"
  by (simp add: star_defs)

lemma addStar_ctls:
  "ctls (addStar k w icon sz i s) j =
     (if j = k then (ctls s k)\<lparr>stars := stars (ctls s k) @ [fresh s]\<rparr> else ctls s j)"
  by (simp add: star_defs)

lemma addStar_old:
  "x \<noteq> fresh s \<Longrightarrow> x \<noteq> w \<Longrightarrow> nodes (addStar k w icon sz i s) x = nodes s x"
  by (simp add: star_defs)

lemma addStar_w:
  "w \<noteq> fresh s \<Longrightarrow> nodes (addStar k w icon sz i s) w = (nodes s w)\<lparr>childNodes := childNodes (nodes s w) @ [fresh s]\<rparr>"
  by (simp add: star_defs)

lemma addStar_new:
  "w \<noteq> fresh s \<Longrightarrow> nodes (addStar k w icon sz i s) (fresh s) = starElem k w icon sz i"
  by (simp add: star_defs starElem_def)

lemma starLoop_fresh [simp]: "fresh (starLoop n k w icon sz s) = fresh s + n"
  by (induction n) simp_all

lemma starLoop_nctls [simp]: "nctls (starLoop n k w icon sz s) = nctls s"
  by (induction n) simp_all

lemma starLoop_old:
  "x < fresh s \<Longrightarrow> x \<noteq> w \<Longrightarrow> nodes (starLoop n k w icon sz s) x = nodes s x"
  by (induction n) (simp_all add: addStar_old)

lemma starLoop_w:
  "w < fresh s \<Longrightarrow> nodes (starLoop n k w icon sz s) w =
     (nodes s w)\<lparr>childNodes := childNodes (nodes s w) @ [fresh s ..< fresh s + n]\<rparr>"
  by (induction n) (simp_all add: addStar_w)

lemma starLoop_new:
  "w < fresh s \<Longrightarrow> j < n \<Longrightarrow>
     nodes (starLoop n k w icon sz s) (fresh s + j) = starElem k w icon sz (int (Suc j))"
proof (induction n)
  case 0
  then show ?case by simp
next
  case (Suc n)
  show ?case
  proof (cases "j = n")
    case True
    with Suc.prems show ?thesis
      using addStar_new [of w "starLoop n k w icon sz s" k icon sz "int (Suc n)"]
      by (simp del: of_nat_Suc)
  next
    case False
    with Suc show ?thesis by (simp add: addStar_old del: of_nat_Suc)
  qed
qed

lemma starLoop_new_at:
  "w < fresh s \<Longrightarrow> fresh s \<le> x \<Longrightarrow> x < fresh s + n \<Longrightarrow>
     nodes (starLoop n k w icon sz s) x = starElem k w icon sz (int (Suc (x - fresh s)))"
  using starLoop_new [of w s "x - fresh s" n k icon sz] by simp

lemma starLoop_ctls_same:
  "ctls (starLoop n k w icon sz s) k =
     (ctls s k)\<lparr>stars := stars (ctls s k) @ [fresh s ..< fresh s + n]\<rparr>"
  by (induction n) (simp_all add: addStar_ctls)

lemma starLoop_ctls_other:
  "j \<noteq> k \<Longrightarrow> ctls (starLoop n k w icon sz s) j = ctls s j"
  by (induction n) (simp_all add: addStar_ctls)

lemmas build_defs = buildCustomStarsForContainer_def setStyle_def setAttribute_def
  getAttribute_def createElement_def appendChild_def detach_def blank_def Let_def

lemma build_built:
  "getAttribute s c ''data-starutils-built'' = Some ''1'' \<Longrightarrow>
     buildCustomStarsForContainer s (Some c) opts = (Container c, s)"
  by (simp add: buildCustomStarsForContainer_def)

lemma build_result:
  "getAttribute s c ''data-starutils-built'' \<noteq> Some ''1'' \<Longrightarrow>
     fst (buildCustomStarsForContainer s (Some c) opts) = Control (nctls s)"
  by (simp add: build_defs)

lemma build_fresh:
  "getAttribute s c ''data-starutils-built'' \<noteq> Some ''1'' \<Longrightarrow>
     fresh (snd (buildCustomStarsForContainer s (Some c) opts)) = Suc (fresh s) + nat (o_numStars opts)"
  by (simp add: build_defs starLoop_w)

lemma build_container:
  "getAttribute s c ''data-starutils-built'' \<noteq> Some ''1'' \<Longrightarrow> c < fresh s \<Longrightarrow>
     nodes (snd (buildCustomStarsForContainer s (Some c) opts)) c =
       (nodes s c)\<lparr>attributes := (attributes (nodes s c))(''data-starutils-built'' \<mapsto> ''1''),
                    childNodes := childNodes (nodes s c) @ [fresh s]\<rparr>"
  by (simp add: build_defs starLoop_old starLoop_w)


lemma build_old:
  "x < fresh s \<Longrightarrow> x \<noteq> c \<Longrightarrow>
     nodes (snd (buildCustomStarsForContainer s (Some c) opts)) x = nodes s x"
  by (simp add: build_defs starLoop_old starLoop_w split: option.splits)

lemma build_wrapper:
  "getAttribute s c ''data-starutils-built'' \<noteq> Some ''1'' \<Longrightarrow> c < fresh s \<Longrightarrow>
     nodes (snd (buildCustomStarsForContainer s (Some c) opts)) (fresh s) =
       wrapperElem c (o_spacing opts) (o_starSize opts)
         [Suc (fresh s) ..< Suc (fresh s) + nat (o_numStars opts)]"
  by (simp add: build_defs starLoop_old starLoop_w wrapperElem_def)

lemma build_star:
  "getAttribute s c ''data-starutils-built'' \<noteq> Some ''1'' \<Longrightarrow> c < fresh s \<Longrightarrow>
   j < nat (o_numStars opts) \<Longrightarrow>
     nodes (snd (buildCustomStarsForContainer s (Some c) opts)) (Suc (fresh s) + j) =
       starElem (nctls s) (fresh s) (iconOf s opts) (o_starSize opts) (int (Suc j))"
  by (simp add: build_defs starLoop_old starLoop_w starLoop_new_at iconOf_def del: of_nat_Suc)

lemma build_ctls_new:
  "getAttribute s c ''data-starutils-built'' \<noteq> Some ''1'' \<Longrightarrow>
     ctls (snd (buildCustomStarsForContainer s (Some c) opts)) (nctls s) =
       \<lparr>container = c, wrapper = fresh s,
        stars = [Suc (fresh s) ..< Suc (fresh s) + nat (o_numStars opts)], selectedValue = 0\<rparr>"
  by (simp add: build_defs starLoop_w starLoop_ctls_same)

lemma build_ctls_old:
  "j \<noteq> nctls s \<Longrightarrow>
     ctls (snd (buildCustomStarsForContainer s (Some c) opts)) j = ctls s j"
  by (simp add: build_defs starLoop_w starLoop_ctls_other)

lemma concat_leaves: "\<forall>x\<in>set cs. f x = [] \<Longrightarrow> concat (map (\<lambda>c. c # f c) cs) = cs"
  by (induction cs) simp_all

lemma descendants_leaf: "childNodes (nodes s x) = [] \<Longrightarrow> descendants m s x = []"
  by (cases m) simp_all

lemma descendants_leaves:
  "\<forall>x\<in>set (childNodes (nodes s r)). childNodes (nodes s x) = [] \<Longrightarrow>
     descendants (Suc m) s r = childNodes (nodes s r)"
  by (simp add: concat_leaves descendants_leaf)

text \<open>
  C5. Building a second time on the same container changes nothing: the first call has
  left the attribute \<^verbatim>\<open>data-starutils-built\<close> on it, and the second call returns
  the container at once, adding neither a wrapper nor an icon.
\<close>

theorem build_twice:
  assumes "c < fresh s"
  shows "buildCustomStarsForContainer (snd (buildCustomStarsForContainer s (Some c) o1)) (Some c) o2 =
     (Container c, snd (buildCustomStarsForContainer s (Some c) o1))"
proof (cases "getAttribute s c ''data-starutils-built'' = Some ''1''")
  case True
  then show ?thesis by (simp add: build_built)
next
  case False
  with assms have "getAttribute (snd (buildCustomStarsForContainer s (Some c) o1)) c
      ''data-starutils-built'' = Some ''1''"
    by (simp add: getAttribute_def build_container)
  then show ?thesis by (rule build_built)
qed

theorem build_twice_witness:
  "5 < fresh demo \<and>
   buildCustomStarsForContainer (snd (buildCustomStarsForContainer demo (Some 5) demo_opts))
       (Some 5) demo_opts =
     (Container 5, snd (buildCustomStarsForContainer demo (Some 5) demo_opts))"
proof -
  have h: "5 < fresh demo" by (simp add: demo_def)
  from build_twice [OF h] show ?thesis using h by simp
qed

text \<open>
  C4. On a container that is not yet marked as built, with \<open>numStars \<ge> 1\<close>, the builder
  returns a control with exactly \<open>numStars\<close> icons and \<open>selectedValue = 0\<close>. The icons
  are the children of the new wrapper in ascending order (icon \<open>j\<close>, counted from 0,
  carries \<^verbatim>\<open>data-value\<close> \<open>j + 1\<close>), each with opacity 0.35, and the wrapper is
  the last child of the container.
\<close>

theorem build_new:
  assumes c: "c < fresh s"
    and nb: "getAttribute s c ''data-starutils-built'' \<noteq> Some ''1''"
    and n: "1 \<le> o_numStars opts"
  shows "fst (buildCustomStarsForContainer s (Some c) opts) = Control (nctls s) \<and>
    (let s' = snd (buildCustomStarsForContainer s (Some c) opts);
         env = ctls s' (nctls s)
     in int (length (stars env)) = o_numStars opts \<and>
        selectedValue env = 0 \<and>
        container env = c \<and>
        childNodes (nodes s' c) = childNodes (nodes s c) @ [wrapper env] \<and>
        querySelectorAll s' (wrapper env) (Sel (Some ''img'') (Some ''starutils-star'')) = stars env \<and>
        (\<forall>j < length (stars env).
           getAttribute s' (stars env ! j) ''data-value'' = Some (show_int (int j + 1)) \<and>
           style (nodes s' (stars env ! j)) ''opacity'' = ''0.35''))"
proof -
  let ?s' = "snd (buildCustomStarsForContainer s (Some c) opts)"
  let ?n = "nat (o_numStars opts)"
  let ?st = "[Suc (fresh s) ..< Suc (fresh s) + ?n]"
  have env: "ctls ?s' (nctls s) = \<lparr>container = c, wrapper = fresh s, stars = ?st, selectedValue = 0\<rparr>"
    using nb by (rule build_ctls_new)
  have star: "nodes ?s' (?st ! j) =
      starElem (nctls s) (fresh s) (iconOf s opts) (o_starSize opts) (int (Suc j))" if "j < ?n" for j
    using build_star [OF nb c that] that by (simp del: upt_Suc)
  have kids: "childNodes (nodes ?s' (fresh s)) = ?st"
    using build_wrapper [OF nb c] by (simp add: wrapperElem_def)
  have leaf: "\<forall>x\<in>set (childNodes (nodes ?s' (fresh s))). childNodes (nodes ?s' x) = []"
  proof
    fix x assume "x \<in> set (childNodes (nodes ?s' (fresh s)))"
    then obtain j where "j < ?n" "x = ?st ! j"
      unfolding kids by (metis in_set_conv_nth length_upt add_diff_cancel_left')
    then show "childNodes (nodes ?s' x) = []"
      using star [of j] by (simp add: starElem_def)
  qed
  have fr: "fresh ?s' = Suc (fresh s + ?n)"
    using nb by (simp add: build_fresh)
  have desc: "descendants (fresh ?s') ?s' (fresh s) = ?st"
    unfolding fr using descendants_leaves [OF leaf] kids by (simp del: upt_Suc)
  have all: "\<forall>x\<in>set ?st. matches ?s' (Sel (Some ''img'') (Some ''starutils-star'')) x"
  proof
    fix x assume "x \<in> set ?st"
    then obtain j where "j < ?n" "x = ?st ! j"
      by (metis in_set_conv_nth length_upt add_diff_cancel_left')
    then show "matches ?s' (Sel (Some ''img'') (Some ''starutils-star'')) x"
      using star [of j] by (simp add: starElem_def)
  qed
  have q: "querySelectorAll ?s' (fresh s) (Sel (Some ''img'') (Some ''starutils-star'')) = ?st"
    unfolding querySelectorAll_def desc using all by (simp only: filter_True)
  have each: "getAttribute ?s' (?st ! j) ''data-value'' = Some (show_int (int j + 1)) \<and>
      style (nodes ?s' (?st ! j)) ''opacity'' = ''0.35''" if "j < ?n" for j
    using star [OF that] by (simp add: getAttribute_def starElem_def add.commute)
  show ?thesis
    using n each q build_container [OF nb c] build_result [OF nb]
    by (simp add: env Let_def del: upt_Suc)
qed

theorem build_new_witness:
  "5 < fresh demo \<and> getAttribute demo 5 ''data-starutils-built'' \<noteq> Some ''1'' \<and>
   1 \<le> o_numStars demo_opts \<and>
   fst (buildCustomStarsForContainer demo (Some 5) demo_opts) = Control 0 \<and>
   int (length (stars (ctls (snd (buildCustomStarsForContainer demo (Some 5) demo_opts)) 0))) = 5 \<and>
   selectedValue (ctls (snd (buildCustomStarsForContainer demo (Some 5) demo_opts)) 0) = 0"
proof -
  have h1: "5 < fresh demo" by (simp add: demo_def)
  have h2: "getAttribute demo 5 ''data-starutils-built'' \<noteq> Some ''1''"
    by (simp add: demo_def getAttribute_def blank_def)
  have h3: "1 \<le> o_numStars demo_opts" by (simp add: demo_opts_def)
  have k: "nctls demo = 0" by (simp add: demo_def)
  have n: "o_numStars demo_opts = 5" by (simp add: demo_opts_def)
  from build_new [OF h1 h2 h3] show ?thesis
    using h1 h2 h3 by (simp add: Let_def k n)
qed

subsection \<open>Listeners\<close>

lemma setStyle_fields [simp]:
  "fresh (setStyle r a v s) = fresh s" "ctls (setStyle r a v s) = ctls s"
  "nctls (setStyle r a v s) = nctls s" "dispatched (setStyle r a v s) = dispatched s"
  "timers (setStyle r a v s) = timers s"
  by (simp_all add: setStyle_def)

lemma setStyle_nodes:
  "nodes (setStyle r a v s) x =
     (if x = r then (nodes s x)\<lparr>style := (style (nodes s x))(a := v)\<rparr> else nodes s x)"
  by (simp add: setStyle_def)

lemma fold_opacity_fields [simp]:
  "fresh (fold (\<lambda>(idx, st). setStyle st a (g idx)) ps s) = fresh s"
  "ctls (fold (\<lambda>(idx, st). setStyle st a (g idx)) ps s) = ctls s"
  "dispatched (fold (\<lambda>(idx, st). setStyle st a (g idx)) ps s) = dispatched s"
  by (induction ps arbitrary: s) (simp_all add: split_def)

lemma fold_opacity_keeps:
  "\<exists>st. nodes (fold (\<lambda>(idx, r). setStyle r a (g idx)) ps s) x = (nodes s x)\<lparr>style := st\<rparr>"
proof (induction ps arbitrary: s)
  case Nil
  have "nodes s x = (nodes s x)\<lparr>style := style (nodes s x)\<rparr>" by simp
  then show ?case by (metis fold_simps(1))
next
  case (Cons p ps)
  obtain st where "nodes (fold (\<lambda>(idx, r). setStyle r a (g idx)) ps (setStyle (snd p) a (g (fst p)) s)) x =
     (nodes (setStyle (snd p) a (g (fst p)) s) x)\<lparr>style := st\<rparr>"
    using Cons.IH by blast
  then show ?case by (auto simp: split_def setStyle_nodes)
qed

lemma fold_opacity_other:
  "x \<notin> snd ` set ps \<Longrightarrow> nodes (fold (\<lambda>(idx, r). setStyle r a (g idx)) ps s) x = nodes s x"
  by (induction ps arbitrary: s) (auto simp: split_def setStyle_nodes)

lemma fold_opacity_at:
  "distinct (map snd ps) \<Longrightarrow> (i, x) \<in> set ps \<Longrightarrow>
     style (nodes (fold (\<lambda>(idx, r). setStyle r a (g idx)) ps s) x) a = g i"
proof (induction ps arbitrary: s)
  case Nil
  then show ?case by simp
next
  case (Cons p ps)
  show ?case
  proof (cases "(i, x) = p")
    case True
    with Cons.prems have "x \<notin> snd ` set ps" by force
    with True show ?thesis
      by (auto simp: fold_opacity_other setStyle_nodes)
  next
    case False
    with Cons show ?thesis by (auto simp: split_def)
  qed
qed

lemma updateVisual_fields [simp]:
  "fresh (updateVisual k v s) = fresh s" "ctls (updateVisual k v s) = ctls s"
  "dispatched (updateVisual k v s) = dispatched s"
  by (simp_all add: updateVisual_def)

lemma updateVisual_keeps:
  "\<exists>st. nodes (updateVisual k v s) x = (nodes s x)\<lparr>style := st\<rparr>"
  unfolding updateVisual_def by (rule fold_opacity_keeps)

lemma updateVisual_opacity:
  assumes "distinct (stars (ctls s k))" and "m < length (stars (ctls s k))"
  shows "style (nodes (updateVisual k v s) (stars (ctls s k) ! m)) ''opacity'' =
     (if int m < v then ''1'' else ''0.35'')"
proof -
  have mem: "(m, stars (ctls s k) ! m) \<in> set (enumerate 0 (stars (ctls s k)))"
    using assms(2) by (simp add: in_set_enumerate_eq)
  have dist: "distinct (map snd (enumerate 0 (stars (ctls s k))))"
    using assms(1) by simp
  show ?thesis
    unfolding updateVisual_def
    using fold_opacity_at [OF dist mem, of "''opacity''"
        "\<lambda>idx. if int idx < v then ''1'' else ''0.35''" s]
    by simp
qed


lemma updateVisual_listeners [simp]:
  "listeners (nodes (updateVisual k v s) x) = listeners (nodes s x)"
  using updateVisual_keeps [of k v s x] by auto

lemma updateVisual_inputValue [simp]:
  "inputValue (nodes (updateVisual k v s) x) = inputValue (nodes s x)"
  using updateVisual_keeps [of k v s x] by auto

lemma matches_cong: "nodes s = nodes t \<Longrightarrow> matches s sel r = matches t sel r"
  by (cases sel) (simp split: option.splits)

lemma descendants_cong: "nodes s = nodes t \<Longrightarrow> descendants n s r = descendants n t r"
  by (induction n arbitrary: r) simp_all

lemma ancestors_cong: "nodes s = nodes t \<Longrightarrow> ancestors n s r = ancestors n t r"
  by (induction n arbitrary: r) (simp_all split: option.splits)

lemma querySelector_cong:
  "nodes s = nodes t \<Longrightarrow> fresh s = fresh t \<Longrightarrow> querySelector s r sel = querySelector t r sel"
  using matches_cong [of s t sel] descendants_cong [of s t "fresh t" r]
  by (simp add: querySelector_def querySelectorAll_def cong: filter_cong)

lemma closest_cong:
  "nodes s = nodes t \<Longrightarrow> fresh s = fresh t \<Longrightarrow> closest s r sel = closest t r sel"
  using matches_cong [of s t sel] ancestors_cong [of s t "fresh t" r]
  by (simp add: closest_def cong: find_cong)

lemma setSelectedValue_fields [simp]:
  "nodes (setSelectedValue k v s) = nodes s" "fresh (setSelectedValue k v s) = fresh s"
  "dispatched (setSelectedValue k v s) = dispatched s"
  "ctls (setSelectedValue k v s) j = (if j = k then (ctls s k)\<lparr>selectedValue := v\<rparr> else ctls s j)"
  by (simp_all add: setSelectedValue_def)

lemma starClick_ctls:
  "ctls (starClick k i s) j = (if j = k then (ctls s k)\<lparr>selectedValue := i\<rparr> else ctls s j)"
  by (simp add: starClick_def Let_def dispatchEvent_def split: option.splits)

lemma starClick_listeners [simp]:
  "listeners (nodes (starClick k i s) x) = listeners (nodes s x)"
  by (simp add: starClick_def Let_def dispatchEvent_def split: option.splits)

lemma starClick_opacity:
  assumes "distinct (stars (ctls s k))" and "m < length (stars (ctls s k))"
  shows "style (nodes (starClick k i s) (stars (ctls s k) ! m)) ''opacity'' =
     (if int m < i then ''1'' else ''0.35'')"
proof -
  define s2 where "s2 = (case closest (setSelectedValue k i s) (container (ctls (setSelectedValue k i s) k)) (by_tag ''tr'') of
                  None \<Rightarrow> setSelectedValue k i s
                | Some tr \<Rightarrow>
                    (case querySelector (setSelectedValue k i s) tr (by_class ''ResultsInput'') of
                       None \<Rightarrow> setSelectedValue k i s
                     | Some inp \<Rightarrow>
                         dispatchEvent inp ''change''
                           (dispatchEvent inp ''input''
                             (upd inp (\<lambda>e. e\<lparr>inputValue := show_int (selectedValue (ctls (setSelectedValue k i s) k))\<rparr>) (setSelectedValue k i s)))))"
  have c: "ctls s2 k = (ctls s k)\<lparr>selectedValue := i\<rparr>"
    by (simp add: s2_def dispatchEvent_def split: option.splits)
  have "starClick k i s = updateVisual k (selectedValue (ctls s2 k)) s2"
    by (simp add: starClick_def Let_def s2_def)
  with updateVisual_opacity [of s2 k m i] assms c show ?thesis by simp
qed

lemma starClick_input:
  assumes "closest s (container (ctls s k)) (by_tag ''tr'') = Some tr"
    and "querySelector s tr (by_class ''ResultsInput'') = Some inp"
  shows "inputValue (nodes (starClick k i s) inp) = show_int i"
    and "dispatched (starClick k i s) = dispatched s @ [(inp, ''input''), (inp, ''change'')]"
proof -
  have 1: "closest (setSelectedValue k i s) (container (ctls s k)) (by_tag ''tr'') = Some tr"
    using assms(1) closest_cong [of "setSelectedValue k i s" s] by simp
  have 2: "querySelector (setSelectedValue k i s) tr (by_class ''ResultsInput'') = Some inp"
    using assms(2) querySelector_cong [of "setSelectedValue k i s" s] by simp
  show "inputValue (nodes (starClick k i s) inp) = show_int i"
    by (simp add: starClick_def Let_def 1 2 dispatchEvent_def)
  show "dispatched (starClick k i s) = dispatched s @ [(inp, ''input''), (inp, ''change'')]"
    by (simp add: starClick_def Let_def 1 2 dispatchEvent_def)
qed

lemma updateVisual_parentNode [simp]:
  "parentNode (nodes (updateVisual k v s) x) = parentNode (nodes s x)"
  using updateVisual_keeps [of k v s x] by auto

lemma starClick_frame [simp]:
  "fresh (starClick k i s) = fresh s"
  "parentNode (nodes (starClick k i s) x) = parentNode (nodes s x)"
  by (simp_all add: starClick_def Let_def dispatchEvent_def split: option.splits)

lemma handlers_cong:
  "listeners (nodes t x) = listeners (nodes s x) \<Longrightarrow> handlers t x ev = handlers s x ev"
  by (simp add: handlers_def)

lemma handlers_mem: "l \<in> set (handlers s x ev) \<longleftrightarrow> (ev, l) \<in> set (listeners (nodes s x))"
  by (force simp add: handlers_def)

lemma fireAt_none: "handlers s x ev = [] \<Longrightarrow> fireAt x ev s = s"
  by (simp add: fireAt_def)

lemma ancestors_frame:
  "(\<And>x. parentNode (nodes t x) = parentNode (nodes s x)) \<Longrightarrow> ancestors n t r = ancestors n s r"
  by (induction n arbitrary: r) (simp_all split: option.splits)

lemma ancestors_mono: "m \<le> n \<Longrightarrow> set (ancestors m s r) \<subseteq> set (ancestors n s r)"
proof (induction m arbitrary: n r)
  case 0
  show ?case by simp
next
  case (Suc m)
  then obtain n' where n: "n = Suc n'" and le: "m \<le> n'" by (cases n) simp_all
  show ?case
  proof (cases "parentNode (nodes s r)")
    case None
    then show ?thesis by (simp add: n)
  next
    case (Some p)
    with Suc.IH [OF le, of p] show ?thesis by (auto simp add: n)
  qed
qed

lemma sameButValues_refl: "sameButValues s s"
  by (simp add: sameButValues_def)

lemma sameButValues_trans: "sameButValues s t \<Longrightarrow> sameButValues t u \<Longrightarrow> sameButValues s u"
  by (simp add: sameButValues_def)

lemma sameButValues_handlers: "sameButValues s t \<Longrightarrow> handlers t x ev = handlers s x ev"
  by (simp add: sameButValues_def handlers_def)

lemma enforce_sameButValues: "sameButValues s (enforce inp m s)"
  by (simp add: sameButValues_def enforce_def Let_def)

lemma enforces_sameButValues:
  "list_all is_enforce ls \<Longrightarrow> sameButValues s (fold run_listener ls s)"
proof (induction ls arbitrary: s)
  case Nil
  show ?case by (simp add: sameButValues_refl)
next
  case (Cons l ls)
  then obtain inp m where l: "l = Enforce inp m" by (cases l) simp_all
  have a: "sameButValues s (enforce inp m s)" by (rule enforce_sameButValues)
  have b: "sameButValues (enforce inp m s) (fold run_listener ls (enforce inp m s))"
    using Cons by simp
  from sameButValues_trans [OF a b] show ?case by (simp add: l)
qed

lemma fireAt_sameButValues:
  "list_all is_enforce (handlers s x ev) \<Longrightarrow> sameButValues s (fireAt x ev s)"
  by (simp add: fireAt_def enforces_sameButValues)

lemma bubble_sameButValues:
  "\<forall>x\<in>set xs. list_all is_enforce (handlers s x ev) \<Longrightarrow>
     sameButValues s (fold (\<lambda>x. fireAt x ev) xs s)"
proof (induction xs arbitrary: s)
  case Nil
  show ?case by (simp add: sameButValues_refl)
next
  case (Cons y ys)
  have a: "sameButValues s (fireAt y ev s)"
    using Cons.prems by (simp add: fireAt_sameButValues)
  have "\<forall>x\<in>set ys. list_all is_enforce (handlers (fireAt y ev s) x ev)"
    using Cons.prems sameButValues_handlers [OF a] by simp
  from sameButValues_trans [OF a Cons.IH [OF this]] show ?case by simp
qed

lemma fireAt_icon:
  assumes "wired k s" and "m < length (stars (ctls s k))"
  shows "fireAt (stars (ctls s k) ! m) ''mouseenter'' s = updateVisual k (int (Suc m)) s"
    and "fireAt (stars (ctls s k) ! m) ''mouseleave'' s = updateVisual k (selectedValue (ctls s k)) s"
    and "fireAt (stars (ctls s k) ! m) ''click'' s = starClick k (int (Suc m)) s"
  using assms by (simp_all add: fireAt_def handlers_def wired_def del: of_nat_Suc)

lemma gesture_hover:
  assumes "wired k s" and "m < length (stars (ctls s k))"
  shows "gesture k (Enter m) s = updateVisual k (int (Suc m)) s"
    and "gesture k (Leave m) s = updateVisual k (selectedValue (ctls s k)) s"
  using assms by (simp_all add: gesture_def fire_def bubbles_def fireAt_icon del: of_nat_Suc)

lemma gesture_click:
  assumes "wired k s" and "m < length (stars (ctls s k))"
  shows "gesture k (Click m) s =
     fold (\<lambda>x. fireAt x ''click'') (ancestors (fresh s) s (stars (ctls s k) ! m))
       (starClick k (int (Suc m)) s)"
  using assms by (simp add: gesture_def fire_def bubbles_def fireAt_icon del: of_nat_Suc)

lemma click_sameButValues:
  assumes "wired k s" and "calm k s" and "m < length (stars (ctls s k))"
  shows "sameButValues (starClick k (int (Suc m)) s) (gesture k (Click m) s)"
proof -
  have "\<forall>x\<in>set (ancestors (fresh s) s (stars (ctls s k) ! m)).
      list_all is_enforce (handlers (starClick k (int (Suc m)) s) x ''click'')"
    using assms(2) nth_mem [OF assms(3)]
    by (auto simp add: calm_def handlers_def simp del: of_nat_Suc)
  from bubble_sameButValues [OF this] show ?thesis
    unfolding gesture_click [OF assms(1,3)] .
qed

lemma gesture_wired:
  assumes "wired k s" and "calm k s" and "position g < length (stars (ctls s k))"
  shows "wired k (gesture k g s)"
    and "stars (ctls (gesture k g s) k) = stars (ctls s k)"
    and "container (ctls (gesture k g s) k) = container (ctls s k)"
    and "selectedValue (ctls (gesture k g s) k) =
           (case g of Click m \<Rightarrow> int (Suc m) | _ \<Rightarrow> selectedValue (ctls s k))"
    and "fresh (gesture k g s) = fresh s"
    and "parentNode (nodes (gesture k g s) x) = parentNode (nodes s x)"
    and "listeners (nodes (gesture k g s) x) = listeners (nodes s x)"
proof -
  have "wired k (gesture k g s) \<and>
      stars (ctls (gesture k g s) k) = stars (ctls s k) \<and>
      container (ctls (gesture k g s) k) = container (ctls s k) \<and>
      selectedValue (ctls (gesture k g s) k) =
           (case g of Click m \<Rightarrow> int (Suc m) | _ \<Rightarrow> selectedValue (ctls s k)) \<and>
      fresh (gesture k g s) = fresh s \<and>
      (\<forall>x. parentNode (nodes (gesture k g s) x) = parentNode (nodes s x) \<and>
           listeners (nodes (gesture k g s) x) = listeners (nodes s x))"
  proof (cases g)
    case (Enter m)
    with assms show ?thesis by (simp add: gesture_hover wired_def del: of_nat_Suc)
  next
    case (Leave m)
    with assms show ?thesis by (simp add: gesture_hover wired_def del: of_nat_Suc)
  next
    case (Click m)
    with assms have m: "m < length (stars (ctls s k))" by simp
    from click_sameButValues [OF assms(1,2) m] assms(1) Click show ?thesis
      by (simp add: sameButValues_def wired_def starClick_ctls del: of_nat_Suc)
  qed
  then show "wired k (gesture k g s)"
    and "stars (ctls (gesture k g s) k) = stars (ctls s k)"
    and "container (ctls (gesture k g s) k) = container (ctls s k)"
    and "selectedValue (ctls (gesture k g s) k) =
           (case g of Click m \<Rightarrow> int (Suc m) | _ \<Rightarrow> selectedValue (ctls s k))"
    and "fresh (gesture k g s) = fresh s"
    and "parentNode (nodes (gesture k g s) x) = parentNode (nodes s x)"
    and "listeners (nodes (gesture k g s) x) = listeners (nodes s x)"
    by blast+
qed

lemma calm_cong:
  assumes "fresh t = fresh s" and "stars (ctls t k) = stars (ctls s k)"
    and "\<And>x. parentNode (nodes t x) = parentNode (nodes s x)"
    and "\<And>x. listeners (nodes t x) = listeners (nodes s x)"
  shows "calm k t = calm k s"
  using assms ancestors_frame [of t s] by (simp add: calm_def handlers_def)


lemma starLoop_beyond:
  "fresh s + n \<le> x \<Longrightarrow> x \<noteq> w \<Longrightarrow> nodes (starLoop n k w icon sz s) x = nodes s x"
  by (induction n) (simp_all add: addStar_old)

lemma build_beyond:
  "getAttribute s c ''data-starutils-built'' \<noteq> Some ''1'' \<Longrightarrow> c < fresh s \<Longrightarrow>
   Suc (fresh s) + nat (o_numStars opts) \<le> x \<Longrightarrow>
     nodes (snd (buildCustomStarsForContainer s (Some c) opts)) x = nodes s x"
  by (simp add: build_defs starLoop_beyond starLoop_w split: option.splits)

lemma build_nodes:
  assumes nb: "getAttribute s c ''data-starutils-built'' \<noteq> Some ''1''" and c: "c < fresh s"
  shows "nodes (snd (buildCustomStarsForContainer s (Some c) opts)) x =
     (if x = c then
        (nodes s c)\<lparr>attributes := (attributes (nodes s c))(''data-starutils-built'' \<mapsto> ''1''),
                     childNodes := childNodes (nodes s c) @ [fresh s]\<rparr>
      else if x = fresh s then
        wrapperElem c (o_spacing opts) (o_starSize opts)
          [Suc (fresh s) ..< Suc (fresh s) + nat (o_numStars opts)]
      else if fresh s < x \<and> x \<le> fresh s + nat (o_numStars opts) then
        starElem (nctls s) (fresh s) (iconOf s opts) (o_starSize opts) (int (x - fresh s))
      else nodes s x)"
proof -
  consider "x = c" | "x \<noteq> c" "x < fresh s" | "x = fresh s"
    | "fresh s < x" "x \<le> fresh s + nat (o_numStars opts)"
    | "Suc (fresh s) + nat (o_numStars opts) \<le> x"
    by linarith
  then show ?thesis
  proof cases
    case 1
    then show ?thesis using build_container [OF nb c] by simp
  next
    case 2
    then show ?thesis using build_old [of x s c opts] by simp
  next
    case 3
    then show ?thesis using build_wrapper [OF nb c] c by simp
  next
    case 4
    then have "x - Suc (fresh s) < nat (o_numStars opts)" by linarith
    from build_star [OF nb c this] 4 c show ?thesis
      by (simp add: Suc_diff_Suc del: of_nat_Suc)
  next
    case 5
    then show ?thesis using build_beyond [OF nb c 5] c by simp
  qed
qed

lemma wired_build:
  assumes nb: "getAttribute s c ''data-starutils-built'' \<noteq> Some ''1''" and c: "c < fresh s"
  shows "wired (nctls s) (snd (buildCustomStarsForContainer s (Some c) opts))"
  unfolding wired_def build_ctls_new [OF nb]
  using build_star [OF nb c] by (simp add: starElem_def del: upt_Suc of_nat_Suc)

lemma above_icon:
  assumes nb: "getAttribute s c ''data-starutils-built'' \<noteq> Some ''1''" and c: "c < fresh s"
    and r: "r \<in> set (stars (ctls (snd (buildCustomStarsForContainer s (Some c) opts)) (nctls s)))"
  shows "set (ancestors (fresh (snd (buildCustomStarsForContainer s (Some c) opts)))
             (snd (buildCustomStarsForContainer s (Some c) opts)) r) \<subseteq>
         insert (fresh s)
           (set (c # ancestors (fresh (snd (buildCustomStarsForContainer s (Some c) opts)))
                  (snd (buildCustomStarsForContainer s (Some c) opts)) c))"
    and "listeners (nodes (snd (buildCustomStarsForContainer s (Some c) opts)) (fresh s)) = []"
proof -
  let ?s1 = "snd (buildCustomStarsForContainer s (Some c) opts)"
  let ?n = "nat (o_numStars opts)"
  have fr: "fresh ?s1 = Suc (fresh s) + ?n" using nb by (rule build_fresh)
  have rr: "fresh s < r" "r \<le> fresh s + ?n"
    using r by (simp_all add: build_ctls_new [OF nb] del: upt_Suc)
  have pr: "parentNode (nodes ?s1 r) = Some (fresh s)"
    using build_nodes [OF nb c, of opts r] rr c by (simp add: starElem_def)
  have pw: "parentNode (nodes ?s1 (fresh s)) = Some c"
    using build_nodes [OF nb c, of opts "fresh s"] c by (simp add: wrapperElem_def)
  show "listeners (nodes ?s1 (fresh s)) = []"
    using build_nodes [OF nb c, of opts "fresh s"] c by (simp add: wrapperElem_def)
  obtain n' where n': "fresh ?s1 = Suc (Suc n')"
    using fr rr by (metis Suc_leI add_Suc le_add_diff_inverse less_le_trans not_less_eq_eq le_imp_less_Suc less_imp_Suc_add)
  have a: "ancestors (fresh ?s1) ?s1 r = fresh s # c # ancestors n' ?s1 c"
    by (simp add: n' pr pw)
  have "set (ancestors n' ?s1 c) \<subseteq> set (ancestors (fresh ?s1) ?s1 c)"
    by (rule ancestors_mono) (simp add: n')
  then show "set (ancestors (fresh ?s1) ?s1 r) \<subseteq>
      insert (fresh s) (set (c # ancestors (fresh ?s1) ?s1 c))"
    unfolding a by auto
qed

lemma calm_build:
  assumes nb: "getAttribute s c ''data-starutils-built'' \<noteq> Some ''1''" and c: "c < fresh s"
    and q: "quiet (snd (buildCustomStarsForContainer s (Some c) opts)) c"
  shows "calm (nctls s) (snd (buildCustomStarsForContainer s (Some c) opts))"
proof -
  let ?s1 = "snd (buildCustomStarsForContainer s (Some c) opts)"
  have "list_all is_enforce (handlers ?s1 x ''click'')"
    if r: "r \<in> set (stars (ctls ?s1 (nctls s)))" and x: "x \<in> set (ancestors (fresh ?s1) ?s1 r)"
    for r x
  proof -
    from above_icon(1) [OF nb c r] x
    have "x = fresh s \<or> x \<in> set (c # ancestors (fresh ?s1) ?s1 c)" by auto
    then show ?thesis
    proof
      assume "x = fresh s"
      with above_icon(2) [OF nb c r] show ?thesis by (simp add: handlers_def)
    next
      assume "x \<in> set (c # ancestors (fresh ?s1) ?s1 c)"
      with q show ?thesis unfolding quiet_def by blast
    qed
  qed
  then show ?thesis unfolding calm_def by blast
qed

lemma gestures_inv:
  assumes "wired k s" and "calm k s" and "\<forall>g\<in>set gs. position g < length (stars (ctls s k))"
  shows "wired k (fold (gesture k) gs s) \<and> calm k (fold (gesture k) gs s) \<and>
     stars (ctls (fold (gesture k) gs s) k) = stars (ctls s k) \<and>
     container (ctls (fold (gesture k) gs s) k) = container (ctls s k) \<and>
     selectedValue (ctls (fold (gesture k) gs s) k) =
       (if lastActivated gs \<noteq> 0 then int (lastActivated gs) else selectedValue (ctls s k)) \<and>
     fresh (fold (gesture k) gs s) = fresh s \<and>
     (\<forall>x. parentNode (nodes (fold (gesture k) gs s) x) = parentNode (nodes s x) \<and>
          listeners (nodes (fold (gesture k) gs s) x) = listeners (nodes s x))"
  using assms
proof (induction gs arbitrary: s)
  case Nil
  then show ?case by simp
next
  case (Cons g gs)
  have p: "position g < length (stars (ctls s k))" using Cons.prems by simp
  note w = gesture_wired [OF Cons.prems(1,2) p]
  have cm: "calm k (gesture k g s)"
    using calm_cong [of "gesture k g s" s k] w Cons.prems(2) by simp
  have "\<forall>h\<in>set gs. position h < length (stars (ctls (gesture k g s) k))"
    unfolding w(2) using Cons.prems by simp
  from Cons.IH [OF w(1) cm this] w show ?case
    by (cases g) (simp_all del: of_nat_Suc)
qed


text \<open>
  C7. A control is built on a page where the click listeners on the container and on the
  elements above it are listeners of \<^verbatim>\<open>enforceMinStar\<close> (the script puts no other
  listener on an element that is not an icon). After any gestures on its icons, clicks
  bubbling as the browser lets them, the pointer entering icon \<open>j\<close> leaves
  \<open>selectedValue\<close> as it was, and once the pointer has left again \<open>selectedValue\<close> is
  the number of the icon clicked last (0 when none was) and exactly the icons up to that
  number have opacity 1, all others 0.35: all are dimmed when no icon was ever clicked.
\<close>

theorem hover_restores:
  assumes c: "c < fresh s0"
    and nb: "getAttribute s0 c ''data-starutils-built'' \<noteq> Some ''1''"
    and q: "quiet (snd (buildCustomStarsForContainer s0 (Some c) opts)) c"
    and gs: "\<forall>g\<in>set gs. position g < nat (o_numStars opts)"
    and j: "j < nat (o_numStars opts)"
  shows "let k = nctls s0;
             s2 = fold (gesture k) gs (snd (buildCustomStarsForContainer s0 (Some c) opts));
             s3 = gesture k (Enter j) s2;
             s4 = gesture k (Leave j) s3
         in selectedValue (ctls s3 k) = selectedValue (ctls s2 k) \<and>
            selectedValue (ctls s4 k) = int (lastActivated gs) \<and>
            (\<forall>m < nat (o_numStars opts).
               style (nodes s4 (stars (ctls s4 k) ! m)) ''opacity'' =
                 (if m < lastActivated gs then ''1'' else ''0.35''))"
proof -
  let ?k = "nctls s0"
  let ?s1 = "snd (buildCustomStarsForContainer s0 (Some c) opts)"
  let ?s2 = "fold (gesture ?k) gs ?s1"
  let ?s3 = "gesture ?k (Enter j) ?s2"
  let ?s4 = "gesture ?k (Leave j) ?s3"
  let ?n = "nat (o_numStars opts)"
  have w1: "wired ?k ?s1" using nb c by (rule wired_build)
  have c1: "calm ?k ?s1" using nb c q by (rule calm_build)
  have len1: "length (stars (ctls ?s1 ?k)) = ?n"
    by (simp add: build_ctls_new [OF nb] del: upt_Suc)
  have sel1: "selectedValue (ctls ?s1 ?k) = 0"
    by (simp add: build_ctls_new [OF nb] del: upt_Suc)
  have gs1: "\<forall>g\<in>set gs. position g < length (stars (ctls ?s1 ?k))"
    using gs by (simp add: len1)
  note inv2 = gestures_inv [OF w1 c1 gs1]
  have w2: "wired ?k ?s2" and c2: "calm ?k ?s2"
    and st2: "stars (ctls ?s2 ?k) = stars (ctls ?s1 ?k)"
    using inv2 by blast+
  have sel2: "selectedValue (ctls ?s2 ?k) = int (lastActivated gs)"
    using inv2 by (simp add: sel1)
  have p2: "position (Enter j) < length (stars (ctls ?s2 ?k))" using j st2 len1 by simp
  note w3 = gesture_wired [OF w2 c2 p2]
  have p3: "j < length (stars (ctls ?s3 ?k))" using j st2 len1 w3(2) by simp
  have eq4: "?s4 = updateVisual ?k (selectedValue (ctls ?s3 ?k)) ?s3"
    using gesture_hover(2) [OF w3(1) p3] .
  have sel3: "selectedValue (ctls ?s3 ?k) = selectedValue (ctls ?s2 ?k)" using w3(4) by simp
  have sel4: "selectedValue (ctls ?s4 ?k) = int (lastActivated gs)"
    unfolding eq4 using sel3 sel2 by simp
  have st4: "stars (ctls ?s4 ?k) = stars (ctls ?s3 ?k)"
    unfolding eq4 by simp
  have op: "style (nodes ?s4 (stars (ctls ?s4 ?k) ! m)) ''opacity'' =
      (if m < lastActivated gs then ''1'' else ''0.35'')" if "m < ?n" for m
  proof -
    have d: "distinct (stars (ctls ?s3 ?k))" using w3(1) by (simp add: wired_def)
    have l: "m < length (stars (ctls ?s3 ?k))" using that w3(2) st2 len1 by simp
    from updateVisual_opacity [OF d l, of "selectedValue (ctls ?s3 ?k)"]
    show ?thesis unfolding st4 eq4 [symmetric] by (simp add: sel3 sel2)
  qed
  show ?thesis
    unfolding Let_def using sel3 sel4 op by blast
qed

subsection \<open>Walking the example page\<close>

lemma below_simps [simp]:
  "below n s [] = []"
  "below n s (c # cs) = c # descendants n s c @ below n s cs"
  by (simp_all add: below_def)

lemma descendants_numeral:
  "descendants (numeral n) s r = below (pred_numeral n) s (childNodes (nodes s r))"
  by (simp add: numeral_eq_Suc below_def)

lemma descendants_Suc:
  "descendants (Suc n) s r = below n s (childNodes (nodes s r))"
  by (simp add: below_def)

lemma ancestors_numeral:
  "ancestors (numeral n) s r =
     (case parentNode (nodes s r) of None \<Rightarrow> [] | Some p \<Rightarrow> p # ancestors (pred_numeral n) s p)"
  by (simp add: numeral_eq_Suc)

lemma demo_nodes:
  "nodes demo 0 = (blank ''html'')\<lparr>childNodes := [1]\<rparr>"
  "nodes demo (Suc 0) = (blank ''body'')\<lparr>parentNode := Some 0, childNodes := [2]\<rparr>"
  "nodes demo 2 = (blank ''div'')\<lparr>attributes := [''id'' \<mapsto> ''QID1''], parentNode := Some 1,
                                childNodes := [3]\<rparr>"
  "nodes demo 3 = (blank ''tr'')\<lparr>parentNode := Some 2, childNodes := [4, 6]\<rparr>"
  "nodes demo 4 = (blank ''td'')\<lparr>className := [''control''], parentNode := Some 3, childNodes := [5]\<rparr>"
  "nodes demo 5 = (blank ''div'')\<lparr>className := [''StarsContainer''], parentNode := Some 4,
                                childNodes := [7]\<rparr>"
  "nodes demo 6 = (blank ''td'')\<lparr>className := [''value''], parentNode := Some 3, childNodes := [8]\<rparr>"
  "nodes demo 7 = (blank ''div'')\<lparr>className := [''StarTrack''], parentNode := Some 5\<rparr>"
  "nodes demo 8 = (blank ''input'')\<lparr>className := [''ResultsInput''], parentNode := Some 6\<rparr>"
  by (simp_all add: demo_def)

lemma demo_fields:
  "fresh demo = 9" "document demo = 0" "nctls demo = 0" "dispatched demo = []" "timers demo = []"
  by (simp_all add: demo_def)

lemma demo_opts_fields:
  "o_spacing demo_opts = 20" "o_starSize demo_opts = 30" "o_numStars demo_opts = 5"
  "o_starIcon demo_opts = None"
  by (simp_all add: demo_opts_def)

lemmas walk_simps = descendants_numeral descendants_Suc ancestors_numeral
  querySelectorAll_def querySelector_def closest_def qsAll_def getElementById_def

lemma demo_unbuilt: "getAttribute demo 5 ''data-starutils-built'' \<noteq> Some ''1''"
  by (simp add: getAttribute_def demo_nodes blank_def)

lemma demo_row:
  "closest (snd (buildCustomStarsForContainer demo (Some 5) demo_opts)) 5 (by_tag ''tr'') = Some 3"
  "querySelector (snd (buildCustomStarsForContainer demo (Some 5) demo_opts)) 3
     (by_class ''ResultsInput'') = Some 8"
proof -
  have h1: "5 < fresh demo" by (simp add: demo_fields)
  note bn = build_nodes [OF demo_unbuilt h1, of demo_opts]
  have fr: "fresh (snd (buildCustomStarsForContainer demo (Some 5) demo_opts)) = 15"
    using build_fresh [OF demo_unbuilt, of demo_opts] by (simp add: demo_fields demo_opts_fields)
  show "closest (snd (buildCustomStarsForContainer demo (Some 5) demo_opts)) 5 (by_tag ''tr'') = Some 3"
    unfolding closest_def fr
    by (simp add: ancestors_numeral bn demo_nodes demo_fields blank_def)
  show "querySelector (snd (buildCustomStarsForContainer demo (Some 5) demo_opts)) 3
     (by_class ''ResultsInput'') = Some 8"
    unfolding querySelector_def querySelectorAll_def fr
    by (simp add: descendants_numeral descendants_Suc bn demo_nodes demo_fields blank_def
        demo_opts_fields wrapperElem_def starElem_def del: descendants.simps(2))
qed

lemma demo_min_eq:
  "demo_min m =
     addEventListener 5 ''click'' (Enforce 8 m) (addEventListener 8 ''blur'' (Enforce 8 m) demo)"
  by (simp add: demo_min_def minStarTask_def minStarRow_def qsAll_def querySelector_def
      querySelectorAll_def descendants_numeral addEventListener_def demo_nodes demo_fields blank_def
      del: descendants.simps(2))

lemma demo_min_nodes:
  "nodes (demo_min m) x =
     (if x = 5 then (nodes demo 5)\<lparr>listeners := [(''click'', Enforce 8 m)]\<rparr>
      else if x = 8 then (nodes demo 8)\<lparr>listeners := [(''blur'', Enforce 8 m)]\<rparr>
      else nodes demo x)"
  by (simp add: demo_min_eq addEventListener_def demo_nodes blank_def)

lemma demo_min_fields:
  "fresh (demo_min m) = 9" "nctls (demo_min m) = 0" "dispatched (demo_min m) = []"
  by (simp_all add: demo_min_eq addEventListener_def demo_fields)

lemma demo_min_lt: "5 < fresh (demo_min m)"
  by (simp add: demo_min_fields)

lemma demo_min_unbuilt: "getAttribute (demo_min m) 5 ''data-starutils-built'' \<noteq> Some ''1''"
  by (simp add: getAttribute_def demo_min_nodes demo_nodes blank_def)

lemmas demo_min_bn = build_nodes [OF demo_min_unbuilt demo_min_lt, where opts = demo_opts]

lemma demo_min_built_fresh: "fresh (demo_min_built m) = 15"
  using build_fresh [OF demo_min_unbuilt, of m demo_opts]
  by (simp add: demo_min_fields demo_opts_fields)

lemma demo_min_built_ctl:
  "ctls (demo_min_built m) 0 =
     \<lparr>container = 5, wrapper = 9, stars = [10, 11, 12, 13, 14], selectedValue = 0\<rparr>"
  using build_ctls_new [OF demo_min_unbuilt, of m demo_opts]
  by (simp add: demo_min_fields demo_opts_fields)

lemma demo_min_row:
  "closest (demo_min_built m) 5 (by_tag ''tr'') = Some 3"
  "querySelector (demo_min_built m) 3 (by_class ''ResultsInput'') = Some 8"
proof -
  show "closest (demo_min_built m) 5 (by_tag ''tr'') = Some 3"
    unfolding closest_def demo_min_built_fresh
    by (simp add: ancestors_numeral demo_min_bn demo_min_nodes demo_nodes demo_min_fields blank_def)
  show "querySelector (demo_min_built m) 3 (by_class ''ResultsInput'') = Some 8"
    unfolding querySelector_def querySelectorAll_def demo_min_built_fresh
    by (simp add: descendants_numeral descendants_Suc demo_min_bn demo_min_nodes demo_nodes
        demo_min_fields blank_def demo_opts_fields wrapperElem_def starElem_def
        del: descendants.simps(2))
qed

lemma demo_min_above:
  "ancestors 15 (demo_min_built m) 5 = [4, 3, 2, Suc 0, 0]"
  "ancestors 15 (demo_min_built m) 10 = [9, 5, 4, 3, 2, Suc 0, 0]"
  "ancestors 15 (demo_min_built m) 12 = [9, 5, 4, 3, 2, Suc 0, 0]"
  by (simp_all add: ancestors_numeral demo_min_bn demo_min_nodes demo_nodes demo_min_fields
      blank_def demo_opts_fields wrapperElem_def starElem_def)

lemma demo_min_listeners:
  "listeners (nodes (demo_min_built m) 9) = []"
  "listeners (nodes (demo_min_built m) 5) = [(''click'', Enforce 8 m)]"
  "listeners (nodes (demo_min_built m) 4) = []"
  "listeners (nodes (demo_min_built m) 3) = []"
  "listeners (nodes (demo_min_built m) 2) = []"
  "listeners (nodes (demo_min_built m) (Suc 0)) = []"
  "listeners (nodes (demo_min_built m) 0) = []"
  by (simp_all add: demo_min_bn demo_min_nodes demo_nodes demo_min_fields blank_def
      demo_opts_fields wrapperElem_def)

lemma demo_min_quiet: "quiet (demo_min_built m) 5"
  unfolding quiet_def demo_min_built_fresh demo_min_above
  by (simp add: handlers_def demo_min_listeners)

theorem hover_restores_witness:
  "5 < fresh (demo_min 1) \<and> getAttribute (demo_min 1) 5 ''data-starutils-built'' \<noteq> Some ''1'' \<and>
   quiet (demo_min_built 1) 5 \<and>
   position (Click 1) < nat (o_numStars demo_opts) \<and>
   position (Enter 4) < nat (o_numStars demo_opts) \<and>
   2 < nat (o_numStars demo_opts) \<and>
   selectedValue (ctls (gesture 0 (Leave 2) (gesture 0 (Enter 2)
     (fold (gesture 0) [Click 1, Enter 4] (demo_min_built 1)))) 0) = 2"
proof -
  have h3: "\<forall>g\<in>set [Click 1, Enter 4]. position g < nat (o_numStars demo_opts)"
    by (simp add: demo_opts_fields)
  have h4: "2 < nat (o_numStars demo_opts)" by (simp add: demo_opts_fields)
  from hover_restores [OF demo_min_lt demo_min_unbuilt demo_min_quiet h3 h4] show ?thesis
    using demo_min_lt demo_min_unbuilt demo_min_quiet h3 h4
    by (simp add: Let_def demo_min_fields)
qed

subsection \<open>Reading back a written number\<close>

lemma of_char_digit: "d < 10 \<Longrightarrow> (of_char (digit_char d) :: nat) = 48 + d"
  by (simp add: digit_char_def)

lemma is_digit_digit: "d < 10 \<Longrightarrow> is_digit (digit_char d)"
  by (simp add: is_digit_def of_char_digit)

lemma not_space_digit: "d < 10 \<Longrightarrow> \<not> is_space (digit_char d)"
  by (auto simp add: is_space_def of_char_digit)

lemma digit_not_sign: "d < 10 \<Longrightarrow> digit_char d \<noteq> CHR ''-'' \<and> digit_char d \<noteq> CHR ''+''"
proof -
  assume d: "d < 10"
  have "(of_char (digit_char d) :: nat) \<noteq> of_char CHR ''-''"
    and "(of_char (digit_char d) :: nat) \<noteq> of_char CHR ''+''"
    using d by (simp_all add: of_char_digit)
  then show ?thesis by auto
qed

lemma show_nat_digits: "\<forall>c\<in>set (show_nat n). is_digit c"
proof (induction n rule: show_nat.induct)
  case (1 n)
  show ?case
  proof (cases "n < 10")
    case True
    then show ?thesis by (simp add: show_nat.simps [of n] is_digit_digit)
  next
    case False
    with 1 show ?thesis by (simp add: show_nat.simps [of n] is_digit_digit)
  qed
qed

lemma show_nat_hd: "\<exists>d cs. d < 10 \<and> show_nat n = digit_char d # cs"
proof (induction n rule: show_nat.induct)
  case (1 n)
  show ?case
  proof (cases "n < 10")
    case True
    then show ?thesis by (auto simp add: show_nat.simps [of n])
  next
    case False
    with 1 obtain d cs where "d < 10" "show_nat (n div 10) = digit_char d # cs" by blast
    with False show ?thesis by (auto simp add: show_nat.simps [of n])
  qed
qed

lemma digits_val_snoc: "digits_val (ds @ [c]) = 10 * digits_val ds + ((of_char c :: nat) - 48)"
  by (simp add: digits_val_def)

lemma digits_val_show_nat: "digits_val (show_nat n) = n"
proof (induction n rule: show_nat.induct)
  case (1 n)
  show ?case
  proof (cases "n < 10")
    case True
    then show ?thesis by (simp add: show_nat.simps [of n] digits_val_def of_char_digit)
  next
    case False
    with 1 show ?thesis
      by (simp add: show_nat.simps [of n] digits_val_snoc of_char_digit)
  qed
qed

lemma parseInt_show_nat: "parseInt (show_nat n) = Some (int n)"
proof -
  obtain d cs where d: "d < 10" and eq: "show_nat n = digit_char d # cs"
    using show_nat_hd by blast
  have tw: "takeWhile is_digit (show_nat n) = show_nat n"
    using show_nat_digits by (simp add: takeWhile_eq_all_conv)
  have dw: "dropWhile is_space (show_nat n) = show_nat n"
    using d eq by (simp add: not_space_digit)
  have ne: "show_nat n \<noteq> []" using eq by simp
  have hd: "hd (show_nat n) \<noteq> CHR ''-''" "hd (show_nat n) \<noteq> CHR ''+''"
    using d eq digit_not_sign by simp_all
  show ?thesis
    by (simp add: parseInt_def Let_def dw tw ne hd digits_val_show_nat)
qed

lemma parseInt_show_int: "parseInt (show_int i) = Some i"
proof (cases "i < 0")
  case False
  then show ?thesis by (simp add: show_int_def parseInt_show_nat)
next
  case True
  have tw: "takeWhile is_digit (show_nat (nat (- i))) = show_nat (nat (- i))"
    using show_nat_digits by (simp add: takeWhile_eq_all_conv)
  have ne: "show_nat (nat (- i)) \<noteq> []" using show_nat_hd [of "nat (- i)"] by auto
  have sp: "\<not> is_space CHR ''-''" by (simp add: is_space_def)
  show ?thesis
    using True by (simp add: show_int_def parseInt_def Let_def sp tw ne digits_val_show_nat)
qed

subsection \<open>The minimum\<close>

lemma enforce_parsed:
  assumes "inputValue (nodes s inp) = v"
    and "parseInt (if v = [] then ''0'' else v) = Some n"
  shows "inputValue (nodes (enforce inp m s) inp) = (if n < m then show_int m else v)"
    and "n < m \<Longrightarrow> parseInt (inputValue (nodes (enforce inp m s) inp)) = Some m"
    and "m \<le> n \<Longrightarrow> enforce inp m s = s"
  using assms by (auto simp add: enforce_def Let_def parseInt_show_int)

lemma enforce_unparsed:
  assumes "inputValue (nodes s inp) = v" and "v \<noteq> []" and "parseInt v = None"
  shows "enforce inp m s = s"
  using assms by (simp add: enforce_def Let_def)


lemma setTimeout_fields [simp]:
  "nodes (setTimeout t d s) = nodes s" "fresh (setTimeout t d s) = fresh s"
  "document (setTimeout t d s) = document s" "timers (setTimeout t d s) = timers s @ [(d, t)]"
  by (simp_all add: setTimeout_def)

lemma demo_question [simp]: "getElementById (demo_typed v) ''QID1'' = Some 2"
  by (simp add: getElementById_def descendants_numeral demo_typed_def demo_nodes demo_fields blank_def
      del: descendants.simps(2))

lemma demo_minStar:
  "minStarTask (QElem 2) 1 (setTimeout t d (demo_typed v)) =
     addEventListener 5 ''click'' (Enforce 8 1)
       (addEventListener 8 ''blur'' (Enforce 8 1) (setTimeout t d (demo_typed v)))"
  by (simp add: minStarTask_def minStarRow_def qsAll_def querySelector_def querySelectorAll_def
      descendants_numeral addEventListener_def demo_typed_def demo_nodes demo_fields blank_def
      del: descendants.simps(2))

lemma parseInt_abc: "parseInt ''abc'' = None"
  by (simp add: parseInt_def is_space_def is_digit_def)

lemma demo_enforceMinStar:
  "enforceMinStar (demo_typed v) (IdString ''QID1'') (Some 1) =
     Inr (setTimeout (MinStarTask (QElem 2) 1) 300 (demo_typed v))"
  by (simp add: enforceMinStar_def getQuestionContainer_def)

lemma demo_enforce_listeners:
  "listeners (nodes (minStarTask (QElem 2) 1 (setTimeout t d (demo_typed v))) 8) = [(''blur'', Enforce 8 1)]"
  "listeners (nodes (minStarTask (QElem 2) 1 (setTimeout t d (demo_typed v))) 5) = [(''click'', Enforce 8 1)]"
  "inputValue (nodes (minStarTask (QElem 2) 1 (setTimeout t d (demo_typed v))) 8) = v"
  unfolding demo_minStar
  by (simp_all add: addEventListener_def demo_typed_def demo_nodes blank_def)

lemma demo_enforce_above:
  "ancestors (fresh (minStarTask (QElem 2) 1 (setTimeout t d (demo_typed v))))
     (minStarTask (QElem 2) 1 (setTimeout t d (demo_typed v))) 5 = [4, 3, 2, Suc 0, 0]"
  "listeners (nodes (minStarTask (QElem 2) 1 (setTimeout t d (demo_typed v))) 4) = []"
  "listeners (nodes (minStarTask (QElem 2) 1 (setTimeout t d (demo_typed v))) 3) = []"
  "listeners (nodes (minStarTask (QElem 2) 1 (setTimeout t d (demo_typed v))) 2) = []"
  "listeners (nodes (minStarTask (QElem 2) 1 (setTimeout t d (demo_typed v))) (Suc 0)) = []"
  "listeners (nodes (minStarTask (QElem 2) 1 (setTimeout t d (demo_typed v))) 0) = []"
  unfolding demo_minStar
  by (simp_all add: ancestors_numeral addEventListener_def demo_typed_def demo_nodes demo_fields
      blank_def)

text \<open>
  C3. The claim is that content which is no integer counts as zero and is replaced by a
  positive minimum. On the example page with \<^verbatim>\<open>abc\<close> in the input,
  \<^verbatim>\<open>StarUtils.enforceMinStar('QID1', 1)\<close> is called, its timer runs, and the
  input loses focus: the input still holds \<^verbatim>\<open>abc\<close>, not \<^verbatim>\<open>1\<close>.
  \<^verbatim>\<open>parseInt\<close> gives NaN, and \<^verbatim>\<open>NaN < minValue\<close> is false; only the
  empty input is read as 0 (by \<^verbatim>\<open>input.value || '0'\<close>).
\<close>

theorem enforce_keeps_text:
  "(case enforceMinStar (demo_typed ''abc'') (IdString ''QID1'') (Some 1) of
      Inl e \<Rightarrow> False
    | Inr s1 \<Rightarrow>
        (case run_task (snd (last (timers s1))) s1 of
           Inl e \<Rightarrow> False
         | Inr s2 \<Rightarrow> inputValue (nodes (fire 8 ''blur'' s2) 8) = ''abc''))"
  unfolding demo_enforceMinStar
  by (simp add: fire_def bubbles_def fireAt_def handlers_def demo_enforce_listeners enforce_def
      parseInt_abc)

text \<open>
  C2. The claim is that after the check has run on a blur or a click the value of the
  input is at least the minimum. On the same page a click on the stars container runs
  the check and leaves an input that does not read as a number at all. For content that
  \<^verbatim>\<open>parseInt\<close> reads as \<open>n\<close> the claim holds (\<open>enforce_parsed\<close> above): the
  input becomes the minimum when \<open>n\<close> is below it and is left alone otherwise.
\<close>

theorem enforce_click_below_minimum:
  "(case enforceMinStar (demo_typed ''abc'') (IdString ''QID1'') (Some 1) of
      Inl e \<Rightarrow> False
    | Inr s1 \<Rightarrow>
        (case run_task (snd (last (timers s1))) s1 of
           Inl e \<Rightarrow> False
         | Inr s2 \<Rightarrow> parseInt (inputValue (nodes (fire 5 ''click'' s2) 8)) = None))"
  unfolding demo_enforceMinStar
  by (simp add: fire_def bubbles_def fireAt_def handlers_def demo_enforce_listeners
      demo_enforce_above enforce_def parseInt_abc)

subsection \<open>A click and the minimum\<close>

lemma show_int_nonempty: "show_int i \<noteq> []" "[] \<noteq> show_int i"
  using show_nat_hd [of "nat i"] show_nat_hd [of "nat (- i)"] by (auto simp add: show_int_def)

lemma enforce_at_least:
  assumes "inputValue (nodes s inp) = show_int i" and "r = inp \<longrightarrow> m \<le> i"
  shows "inputValue (nodes (enforce r m s) inp) = show_int i"
  using assms by (auto simp add: enforce_def Let_def parseInt_show_int show_int_nonempty)

lemma enforces_value:
  assumes "inputValue (nodes s inp) = show_int i" and "list_all is_enforce ls"
    and "\<forall>m. Enforce inp m \<in> set ls \<longrightarrow> m \<le> i"
  shows "inputValue (nodes (fold run_listener ls s) inp) = show_int i"
  using assms
proof (induction ls arbitrary: s)
  case Nil
  then show ?case by simp
next
  case (Cons l ls)
  then obtain r m where l: "l = Enforce r m" by (cases l) simp_all
  have "r = inp \<longrightarrow> m \<le> i" using Cons.prems(3) l by simp
  from enforce_at_least [OF Cons.prems(1) this] Cons.IH Cons.prems show ?case
    by (simp add: l)
qed

lemma bubble_value:
  assumes "inputValue (nodes s inp) = show_int i"
    and "\<forall>x\<in>set xs. list_all is_enforce (handlers s x ev)"
    and "\<forall>x\<in>set xs. \<forall>m. Enforce inp m \<in> set (handlers s x ev) \<longrightarrow> m \<le> i"
  shows "inputValue (nodes (fold (\<lambda>x. fireAt x ev) xs s) inp) = show_int i"
  using assms
proof (induction xs arbitrary: s)
  case Nil
  then show ?case by simp
next
  case (Cons y ys)
  have a: "sameButValues s (fireAt y ev s)"
    using Cons.prems(2) by (simp add: fireAt_sameButValues)
  have v: "inputValue (nodes (fireAt y ev s) inp) = show_int i"
    unfolding fireAt_def using Cons.prems by (intro enforces_value) simp_all
  have 2: "\<forall>x\<in>set ys. list_all is_enforce (handlers (fireAt y ev s) x ev)"
    using Cons.prems(2) sameButValues_handlers [OF a] by simp
  have 3: "\<forall>x\<in>set ys. \<forall>m. Enforce inp m \<in> set (handlers (fireAt y ev s) x ev) \<longrightarrow> m \<le> i"
    using Cons.prems(3) sameButValues_handlers [OF a] by simp
  from Cons.IH [OF v 2 3] show ?case by simp
qed

text \<open>
  C1 as stated fails on a row where \<^verbatim>\<open>enforceMinStar\<close> has put its check on the
  stars container. On the example page with the minimum 3, the control is built and the
  icon with number 1 is clicked: the listener of the icon writes \<^verbatim>\<open>1\<close> into the
  input, the click bubbles to the container, and the check there rewrites the input to
  \<^verbatim>\<open>3\<close>. \<open>selectedValue\<close> is 1 and the input holds 3, not 1.
\<close>

theorem click_below_minimum_counterexample:
  "5 < fresh (demo_min 3) \<and>
   getAttribute (demo_min 3) 5 ''data-starutils-built'' \<noteq> Some ''1'' \<and>
   closest (demo_min_built 3) 5 (by_tag ''tr'') = Some 3 \<and>
   querySelector (demo_min_built 3) 3 (by_class ''ResultsInput'') = Some 8 \<and>
   stars (ctls (demo_min_built 3) 0) ! 0 = 10 \<and>
   selectedValue (ctls (gesture 0 (Click 0) (demo_min_built 3)) 0) = 1 \<and>
   inputValue (nodes (gesture 0 (Click 0) (demo_min_built 3)) 8) = show_int 3 \<and>
   inputValue (nodes (gesture 0 (Click 0) (demo_min_built 3)) 8) \<noteq> show_int 1"
proof -
  let ?B = "demo_min_built 3"
  let ?S = "starClick 0 (int (Suc 0)) ?B"
  have w: "wired 0 ?B"
    using wired_build [OF demo_min_unbuilt demo_min_lt, of 3 demo_opts]
    by (simp add: demo_min_fields)
  have l: "0 < length (stars (ctls ?B 0))" by (simp add: demo_min_built_ctl)
  have cont: "container (ctls ?B 0) = 5" by (simp add: demo_min_built_ctl)
  have hS: "handlers ?S x ''click'' = handlers ?B x ''click''" for x
    by (simp add: handlers_def)
  have hE: "handlers (enforce 8 3 ?S) x ''click'' = handlers ?B x ''click''" for x
    using sameButValues_handlers [OF enforce_sameButValues [of ?S 8 3], of x "''click''"] hS
    by simp
  have vS: "inputValue (nodes ?S 8) = show_int 1"
    using starClick_input(1) [of ?B 0 3 8 "int (Suc 0)"] demo_min_row [of 3] cont by simp
  have vE: "inputValue (nodes (enforce 8 3 ?S) 8) = show_int 3"
    using enforce_parsed(1) [OF vS, of 1 3] by (simp add: parseInt_show_int show_int_nonempty)
  have hB: "handlers ?B 9 ''click'' = []" "handlers ?B 5 ''click'' = [Enforce 8 3]"
    "handlers ?B 4 ''click'' = []" "handlers ?B 3 ''click'' = []" "handlers ?B 2 ''click'' = []"
    "handlers ?B (Suc 0) ''click'' = []" "handlers ?B 0 ''click'' = []"
    by (simp_all add: handlers_def demo_min_listeners)
  have g: "gesture 0 (Click 0) ?B = enforce 8 3 ?S"
    unfolding gesture_click [OF w l]
    by (simp add: demo_min_built_ctl demo_min_built_fresh demo_min_above fireAt_def hS hE hB
        del: of_nat_Suc One_nat_def)
  have sel: "selectedValue (ctls (enforce 8 3 ?S) 0) = 1"
    using enforce_sameButValues [of ?S 8 3] by (simp add: sameButValues_def starClick_ctls)
  have ne: "show_int 3 \<noteq> show_int 1"
  proof
    assume "show_int 3 = show_int 1"
    then have "parseInt (show_int 3) = parseInt (show_int 1)" by simp
    then show False by (simp add: parseInt_show_int)
  qed
  show ?thesis
    unfolding g using vE sel ne demo_min_lt demo_min_unbuilt demo_min_row [of 3]
    by (simp add: demo_min_built_ctl)
qed

text \<open>
  C1 (amended). A control is built on a page where the click listeners on the container
  and on the elements above it are listeners of \<^verbatim>\<open>enforceMinStar\<close>. After any
  gestures on its icons, a click on the icon with number \<open>i\<close> sets \<open>selectedValue\<close>
  to \<open>i\<close> and leaves exactly the icons with number at most \<open>i\<close> at opacity 1 and the
  others at 0.35. When the container has an ancestor row with a
  \<^verbatim>\<open>.ResultsInput\<close>, the input holds \<open>i\<close> once the listener of the icon has run,
  \<^verbatim>\<open>input\<close> and then \<^verbatim>\<open>change\<close> are dispatched on it, and when the click has
  bubbled to the root the input still holds \<open>i\<close> provided that no check on the container
  or above it enforces a minimum greater than \<open>i\<close> on that input.
\<close>

theorem click_selects:
  assumes c: "c < fresh s0"
    and nb: "getAttribute s0 c ''data-starutils-built'' \<noteq> Some ''1''"
    and q: "quiet (snd (buildCustomStarsForContainer s0 (Some c) opts)) c"
    and gs: "\<forall>g\<in>set gs. position g < nat (o_numStars opts)"
    and i: "1 \<le> i" "i \<le> o_numStars opts"
  shows "let k = nctls s0;
             s1 = snd (buildCustomStarsForContainer s0 (Some c) opts);
             s2 = fold (gesture k) gs s1;
             icon = stars (ctls s2 k) ! (nat i - 1);
             s3 = gesture k (Click (nat i - 1)) s2
         in selectedValue (ctls s3 k) = i \<and>
            (\<forall>m < nat (o_numStars opts).
               style (nodes s3 (stars (ctls s3 k) ! m)) ''opacity'' =
                 (if int m < i then ''1'' else ''0.35'')) \<and>
            (\<forall>tr inp. closest s2 c (by_tag ''tr'') = Some tr \<longrightarrow>
               querySelector s2 tr (by_class ''ResultsInput'') = Some inp \<longrightarrow>
                 inputValue (nodes (fireAt icon ''click'' s2) inp) = show_int i \<and>
                 dispatched s3 = dispatched s2 @ [(inp, ''input''), (inp, ''change'')] \<and>
                 ((\<forall>x\<in>set (c # ancestors (fresh s1) s1 c). \<forall>m.
                      (''click'', Enforce inp m) \<in> set (listeners (nodes s1 x)) \<longrightarrow> m \<le> i) \<longrightarrow>
                    inputValue (nodes s3 inp) = show_int i))"
proof -
  let ?k = "nctls s0"
  let ?s1 = "snd (buildCustomStarsForContainer s0 (Some c) opts)"
  let ?s2 = "fold (gesture ?k) gs ?s1"
  let ?icon = "stars (ctls ?s2 ?k) ! (nat i - 1)"
  let ?s3 = "gesture ?k (Click (nat i - 1)) ?s2"
  let ?S = "starClick ?k i ?s2"
  let ?A = "ancestors (fresh ?s2) ?s2 ?icon"
  let ?n = "nat (o_numStars opts)"
  have w1: "wired ?k ?s1" using nb c by (rule wired_build)
  have c1: "calm ?k ?s1" using nb c q by (rule calm_build)
  have len1: "length (stars (ctls ?s1 ?k)) = ?n"
    by (simp add: build_ctls_new [OF nb] del: upt_Suc)
  have cont1: "container (ctls ?s1 ?k) = c"
    by (simp add: build_ctls_new [OF nb] del: upt_Suc)
  have gs1: "\<forall>g\<in>set gs. position g < length (stars (ctls ?s1 ?k))"
    using gs by (simp add: len1)
  note inv2 = gestures_inv [OF w1 c1 gs1]
  have w2: "wired ?k ?s2" and c2: "calm ?k ?s2"
    and st2: "stars (ctls ?s2 ?k) = stars (ctls ?s1 ?k)"
    and cont2: "container (ctls ?s2 ?k) = c"
    and fr2: "fresh ?s2 = fresh ?s1"
    and pn2: "\<And>x. parentNode (nodes ?s2 x) = parentNode (nodes ?s1 x)"
    and ls2: "\<And>x. listeners (nodes ?s2 x) = listeners (nodes ?s1 x)"
    using inv2 cont1 by simp_all
  have p2: "nat i - 1 < length (stars (ctls ?s2 ?k))"
    using i st2 len1 by simp
  have num: "int (Suc (nat i - 1)) = i" using i by simp
  have eq3: "?s3 = fold (\<lambda>x. fireAt x ''click'') ?A ?S"
    using gesture_click [OF w2 p2] num by (simp del: of_nat_Suc)
  have at: "fireAt ?icon ''click'' ?s2 = ?S"
    using fireAt_icon(3) [OF w2 p2] num by (simp del: of_nat_Suc)
  have v: "sameButValues ?S ?s3"
    using click_sameButValues [OF w2 c2 p2] num by (simp del: of_nat_Suc)
  have sel3: "selectedValue (ctls ?s3 ?k) = i"
    using v by (simp add: sameButValues_def starClick_ctls)
  have st3: "stars (ctls ?s3 ?k) = stars (ctls ?s2 ?k)"
    using v by (simp add: sameButValues_def starClick_ctls)
  have op: "style (nodes ?s3 (stars (ctls ?s3 ?k) ! m)) ''opacity'' =
      (if int m < i then ''1'' else ''0.35'')" if "m < ?n" for m
  proof -
    have d: "distinct (stars (ctls ?s2 ?k))" using w2 by (simp add: wired_def)
    have l: "m < length (stars (ctls ?s2 ?k))" using that st2 len1 by simp
    have "style (nodes ?s3 (stars (ctls ?s2 ?k) ! m)) = style (nodes ?S (stars (ctls ?s2 ?k) ! m))"
      using v by (simp add: sameButValues_def)
    with starClick_opacity [OF d l, of i] show ?thesis
      unfolding st3 by simp
  qed
  have inp: "inputValue (nodes (fireAt ?icon ''click'' ?s2) inp) = show_int i \<and>
      dispatched ?s3 = dispatched ?s2 @ [(inp, ''input''), (inp, ''change'')] \<and>
      ((\<forall>x\<in>set (c # ancestors (fresh ?s1) ?s1 c). \<forall>m.
           (''click'', Enforce inp m) \<in> set (listeners (nodes ?s1 x)) \<longrightarrow> m \<le> i) \<longrightarrow>
         inputValue (nodes ?s3 inp) = show_int i)"
    if tr: "closest ?s2 c (by_tag ''tr'') = Some tr"
      and qs: "querySelector ?s2 tr (by_class ''ResultsInput'') = Some inp" for tr inp
  proof -
    have v0: "inputValue (nodes ?S inp) = show_int i"
      using starClick_input(1) [of ?s2 ?k tr inp i] tr qs cont2 by simp
    have d0: "dispatched ?S = dispatched ?s2 @ [(inp, ''input''), (inp, ''change'')]"
      using starClick_input(2) [of ?s2 ?k tr inp i] tr qs cont2 by simp
    have d3: "dispatched ?s3 = dispatched ?s2 @ [(inp, ''input''), (inp, ''change'')]"
      using v d0 by (simp add: sameButValues_def)
    have A: "?A = ancestors (fresh ?s1) ?s1 ?icon"
      using ancestors_frame [of ?s2 ?s1, OF pn2] fr2 by simp
    have mem: "?icon \<in> set (stars (ctls ?s1 ?k))"
      using p2 st2 nth_mem [OF p2] by simp
    have hS: "handlers ?S x ''click'' = handlers ?s1 x ''click''" for x
      using ls2 by (simp add: handlers_def)
    have 2: "\<forall>x\<in>set ?A. list_all is_enforce (handlers ?S x ''click'')"
      using c1 mem unfolding A calm_def hS by blast
    have "inputValue (nodes ?s3 inp) = show_int i"
      if M: "\<forall>x\<in>set (c # ancestors (fresh ?s1) ?s1 c). \<forall>m.
           (''click'', Enforce inp m) \<in> set (listeners (nodes ?s1 x)) \<longrightarrow> m \<le> i"
    proof -
      have 3: "\<forall>x\<in>set ?A. \<forall>m. Enforce inp m \<in> set (handlers ?S x ''click'') \<longrightarrow> m \<le> i"
      proof (intro ballI allI impI)
        fix x m
        assume x: "x \<in> set ?A" and e: "Enforce inp m \<in> set (handlers ?S x ''click'')"
        from e have e1: "(''click'', Enforce inp m) \<in> set (listeners (nodes ?s1 x))"
          unfolding hS handlers_mem .
        from x above_icon(1) [OF nb c mem]
        have "x = fresh s0 \<or> x \<in> set (c # ancestors (fresh ?s1) ?s1 c)"
          unfolding A by auto
        then show "m \<le> i"
        proof
          assume "x = fresh s0"
          with e1 above_icon(2) [OF nb c mem] show ?thesis by simp
        next
          assume "x \<in> set (c # ancestors (fresh ?s1) ?s1 c)"
          with M e1 show ?thesis by blast
        qed
      qed
      from bubble_value [OF v0 2 3] show ?thesis unfolding eq3 .
    qed
    with v0 d3 show ?thesis unfolding at by blast
  qed
  show ?thesis
    unfolding Let_def using sel3 op inp by blast
qed

theorem click_selects_witness:
  "5 < fresh (demo_min 1) \<and> getAttribute (demo_min 1) 5 ''data-starutils-built'' \<noteq> Some ''1'' \<and>
   quiet (demo_min_built 1) 5 \<and> 1 \<le> (3::int) \<and> 3 \<le> o_numStars demo_opts \<and>
   closest (demo_min_built 1) 5 (by_tag ''tr'') = Some 3 \<and>
   querySelector (demo_min_built 1) 3 (by_class ''ResultsInput'') = Some 8 \<and>
   listeners (nodes (demo_min_built 1) 5) = [(''click'', Enforce 8 1)] \<and>
   selectedValue (ctls (gesture 0 (Click 2) (demo_min_built 1)) 0) = 3 \<and>
   dispatched (gesture 0 (Click 2) (demo_min_built 1)) =
     dispatched (demo_min_built 1) @ [(8, ''input''), (8, ''change'')] \<and>
   inputValue (nodes (gesture 0 (Click 2) (demo_min_built 1)) 8) = show_int 3"
proof -
  have h3: "\<forall>g\<in>set []. position g < nat (o_numStars demo_opts)" by simp
  have h4: "1 \<le> (3::int)" by simp
  have h5: "3 \<le> o_numStars demo_opts" by (simp add: demo_opts_fields)
  have M: "\<forall>x\<in>set (5 # ancestors (fresh (demo_min_built 1)) (demo_min_built 1) 5). \<forall>m.
      (''click'', Enforce 8 m) \<in> set (listeners (nodes (demo_min_built 1) x)) \<longrightarrow> m \<le> 3"
    unfolding demo_min_built_fresh demo_min_above
    by (simp add: demo_min_listeners)
  from click_selects [OF demo_min_lt demo_min_unbuilt demo_min_quiet h3 h4 h5]
  have "inputValue (nodes (gesture 0 (Click 2) (demo_min_built 1)) 8) = show_int 3 \<and>
      selectedValue (ctls (gesture 0 (Click 2) (demo_min_built 1)) 0) = 3 \<and>
      dispatched (gesture 0 (Click 2) (demo_min_built 1)) =
        dispatched (demo_min_built 1) @ [(8, ''input''), (8, ''change'')]"
    using demo_min_row [of 1] M by (simp add: Let_def demo_min_fields)
  then show ?thesis
    using demo_min_lt demo_min_unbuilt demo_min_quiet h5 demo_min_row [of 1]
    by (simp add: demo_min_listeners)
qed

subsection \<open>Failures\<close>

lemma applySpacing_options: "\<exists>s'. applySpacing s a (Some opts) = Inr s'"
  by (simp add: applySpacing_def Let_def split: option.splits)

lemma applyColorGradient_options: "\<exists>s'. applyColorGradient s a (Some given) = Inr s'"
  by (simp add: applyColorGradient_def Let_def split: option.splits)

lemma applyColorGradient_no_options: "applyColorGradient s a None = Inl TypeError"
  by (simp add: applyColorGradient_def)

lemma addLabels_returns: "\<exists>s'. addLabels s a options = Inr s'"
  by (simp add: addLabels_def Let_def split: option.splits)

lemma enforceMinStar_returns: "\<exists>s'. enforceMinStar s a m = Inr s'"
  by (simp add: enforceMinStar_def Let_def split: option.splits)

lemma unresolved_root:
  assumes "getQuestionContainer s a = None"
  shows "applySpacing s a (Some opts) = Inr s" and "applyColorGradient s a (Some given) = Inr s"
    and "addLabels s a options = Inr s" and "enforceMinStar s a m = Inr s"
    and "removeNativeStars s a = s"
  using assms
  by (simp_all add: applySpacing_def applyColorGradient_def addLabels_def enforceMinStar_def
      removeNativeStars_def Let_def)

text \<open>
  C8. The claim is that no public operation lets a failure reach its caller, whatever
  the arguments. \<^verbatim>\<open>StarUtils.applySpacing('QID1')\<close>, with the options left out,
  throws a TypeError at \<^verbatim>\<open>options.spacing\<close>, before the container is looked up.
  \<^verbatim>\<open>applyColorGradient\<close> does the same; \<^verbatim>\<open>addLabels\<close> guards its options
  with \<^verbatim>\<open>options || {}\<close>, and the other operations never fail (lemmas above).
\<close>

theorem applySpacing_no_options:
  "applySpacing demo (IdString ''QID1'') None = Inl TypeError"
  by (simp add: applySpacing_def)


subsection \<open>Colours\<close>

lemma paint_nodes:
  "nodes (paint colors p s) x =
     (if x = snd p then
        (nodes s x)\<lparr>style := (style (nodes s x))
           (''backgroundColor'' := js_text (colorAt colors (fst p)),
            ''boxShadow'' := ''0 0 0 2px '' @ js_text (colorAt colors (fst p)) @ '' inset'')\<rparr>
      else nodes s x)"
  by (simp add: paint_def Let_def setStyle_nodes)

lemma fold_paint_other:
  "x \<notin> set imgs \<Longrightarrow> nodes (fold (paint colors) (enumerate n imgs) s) x = nodes s x"
  by (induction imgs arbitrary: n s) (simp_all add: paint_nodes)

lemma fold_paint_at:
  "distinct imgs \<Longrightarrow> j < length imgs \<Longrightarrow>
     style (nodes (fold (paint colors) (enumerate n imgs) s) (imgs ! j)) ''backgroundColor'' =
       js_text (colorAt colors (n + j)) \<and>
     style (nodes (fold (paint colors) (enumerate n imgs) s) (imgs ! j)) ''boxShadow'' =
       ''0 0 0 2px '' @ js_text (colorAt colors (n + j)) @ '' inset''"
proof (induction imgs arbitrary: n s j)
  case Nil
  then show ?case by simp
next
  case (Cons x imgs)
  show ?case
  proof (cases j)
    case 0
    with Cons.prems show ?thesis by (simp add: fold_paint_other paint_nodes)
  next
    case (Suc j')
    with Cons.prems have "imgs ! j' \<noteq> x" by auto
    with Suc Cons.prems Cons.IH [of j' "Suc n" "paint colors (n, x) s"] show ?thesis
      by (simp add: paint_nodes)
  qed
qed

lemma colorAt_cases:
  "js_text (colorAt colors idx) =
     (if idx < length colors \<and> colors ! idx \<noteq> [] then colors ! idx
      else if colors \<noteq> [] then last colors else ''undefined'')"
  by (simp add: colorAt_def js_text_def)

text \<open>
  What the colour pass does: the icon at position \<open>idx\<close> of the list of all
  \<^verbatim>\<open>img.starutils-star\<close> under the root gets \<^verbatim>\<open>colors[idx]\<close> when
  \<open>idx\<close> is within the list and that entry is not the empty string, and otherwise the
  last colour of the list (the text \<^verbatim>\<open>undefined\<close> when the list is empty).
\<close>

lemma colorTask_assigns:
  assumes "distinct (querySelectorAll s r (Sel (Some ''img'') (Some ''starutils-star'')))"
    and "idx < length (querySelectorAll s r (Sel (Some ''img'') (Some ''starutils-star'')))"
  shows "\<exists>s'. colorTask (QElem r) colors s = Inr s' \<and>
     style (nodes s' (querySelectorAll s r (Sel (Some ''img'') (Some ''starutils-star'')) ! idx))
         ''backgroundColor'' =
       (if idx < length colors \<and> colors ! idx \<noteq> [] then colors ! idx
        else if colors \<noteq> [] then last colors else ''undefined'')"
  using fold_paint_at [OF assms, of colors 0 s]
  by (simp add: colorTask_def colorAt_cases)

lemma demo_icons:
  "querySelectorAll (snd (buildCustomStarsForContainer demo (Some 5) demo_opts)) 2
     (Sel (Some ''img'') (Some ''starutils-star'')) = [10, 11, 12, 13, 14]"
proof -
  have h1: "5 < fresh demo" by (simp add: demo_fields)
  note bn = build_nodes [OF demo_unbuilt h1, of demo_opts]
  have fr: "fresh (snd (buildCustomStarsForContainer demo (Some 5) demo_opts)) = 15"
    using build_fresh [OF demo_unbuilt, of demo_opts] by (simp add: demo_fields demo_opts_fields)
  show ?thesis
    unfolding querySelectorAll_def fr
    by (simp add: descendants_numeral descendants_Suc bn demo_nodes demo_fields blank_def
        demo_opts_fields wrapperElem_def starElem_def del: descendants.simps(2))
qed

text \<open>
  The scenario of the specification on a question with one row: with
  \<^verbatim>\<open>['#a', '#b']\<close> and five icons, the icons get \<^verbatim>\<open>#a\<close>,
  \<^verbatim>\<open>#b\<close>, \<^verbatim>\<open>#b\<close>, \<^verbatim>\<open>#b\<close>, \<^verbatim>\<open>#b\<close>.
\<close>

lemma one_row_scenario:
  "\<exists>s'. colorTask (QElem 2) [''#a'', ''#b'']
            (snd (buildCustomStarsForContainer demo (Some 5) demo_opts)) = Inr s' \<and>
         map (\<lambda>x. style (nodes s' x) ''backgroundColor'') [10, 11, 12, 13, 14] =
           [''#a'', ''#b'', ''#b'', ''#b'', ''#b'']"
proof -
  have d: "distinct [10, 11, 12, 13, 14::nat]" by simp
  from fold_paint_at [OF d, of 0 "[''#a'', ''#b'']" 0]
    fold_paint_at [OF d, of 1 "[''#a'', ''#b'']" 0]
    fold_paint_at [OF d, of 2 "[''#a'', ''#b'']" 0]
    fold_paint_at [OF d, of 3 "[''#a'', ''#b'']" 0]
    fold_paint_at [OF d, of 4 "[''#a'', ''#b'']" 0]
  show ?thesis
    by (simp add: colorTask_def demo_icons colorAt_cases)
qed

text \<open>
  An entry that is the empty string is not assigned: with \<^verbatim>\<open>['', '#b']\<close> the
  icon at position 0 gets the last colour, because the empty string is falsy in
  \<^verbatim>\<open>colors[idx] || colors[colors.length - 1]\<close>.
\<close>

lemma empty_color_skipped:
  "\<not> isl (colorTask (QElem 2) ['''', ''#b'']
           (snd (buildCustomStarsForContainer demo (Some 5) demo_opts))) \<and>
   style (nodes (projr (colorTask (QElem 2) ['''', ''#b'']
           (snd (buildCustomStarsForContainer demo (Some 5) demo_opts)))) 10) ''backgroundColor''
     = ''#b''"
proof -
  have d: "distinct [10, 11, 12, 13, 14::nat]" by simp
  from fold_paint_at [OF d, of 0 "['''', ''#b'']" 0] show ?thesis
    by (simp add: colorTask_def demo_icons colorAt_cases)
qed

lemma matrix_nodes:
  "nodes matrix 0 = (blank ''html'')\<lparr>childNodes := [1]\<rparr>"
  "nodes matrix (Suc 0) = (blank ''body'')\<lparr>parentNode := Some 0, childNodes := [2]\<rparr>"
  "nodes matrix 2 = (blank ''div'')\<lparr>attributes := [''id'' \<mapsto> ''QID1''], parentNode := Some 1,
                                childNodes := [3, 6]\<rparr>"
  "nodes matrix 3 = (blank ''tr'')\<lparr>parentNode := Some 2, childNodes := [4]\<rparr>"
  "nodes matrix 4 = (blank ''td'')\<lparr>className := [''control''], parentNode := Some 3, childNodes := [5]\<rparr>"
  "nodes matrix 5 = (blank ''div'')\<lparr>className := [''StarsContainer''], parentNode := Some 4\<rparr>"
  "nodes matrix 6 = (blank ''tr'')\<lparr>parentNode := Some 2, childNodes := [7]\<rparr>"
  "nodes matrix 7 = (blank ''td'')\<lparr>className := [''control''], parentNode := Some 6, childNodes := [8]\<rparr>"
  "nodes matrix 8 = (blank ''div'')\<lparr>className := [''StarsContainer''], parentNode := Some 7\<rparr>"
  by (simp_all add: matrix_def)

lemma matrix_fields: "fresh matrix = 9" "nctls matrix = 0"
  by (simp_all add: matrix_def)

lemma matrix_unbuilt: "getAttribute matrix 5 ''data-starutils-built'' \<noteq> Some ''1''"
  by (simp add: getAttribute_def matrix_nodes blank_def)

lemma matrix_lt: "5 < fresh matrix"
  by (simp add: matrix_fields)

lemmas matrix_first = build_nodes [OF matrix_unbuilt matrix_lt, where opts = demo_opts]

lemma matrix_first_fresh: "fresh (snd (buildCustomStarsForContainer matrix (Some 5) demo_opts)) = 15"
  using build_fresh [OF matrix_unbuilt, of demo_opts] by (simp add: matrix_fields demo_opts_fields)

lemma matrix_second_unbuilt:
  "getAttribute (snd (buildCustomStarsForContainer matrix (Some 5) demo_opts)) 8
     ''data-starutils-built'' \<noteq> Some ''1''"
  by (simp add: getAttribute_def matrix_first matrix_nodes matrix_fields blank_def demo_opts_fields)

lemma matrix_second_lt: "8 < fresh (snd (buildCustomStarsForContainer matrix (Some 5) demo_opts))"
  by (simp add: matrix_first_fresh)

lemmas matrix_second = build_nodes [OF matrix_second_unbuilt matrix_second_lt, where opts = demo_opts]

lemma matrix_built_fresh: "fresh matrix_built = 21"
  unfolding matrix_built_def
  using build_fresh [OF matrix_second_unbuilt, of demo_opts]
  by (simp add: matrix_first_fresh demo_opts_fields)

lemma matrix_icons:
  "querySelectorAll matrix_built 2 (Sel (Some ''img'') (Some ''starutils-star'')) =
     [10, 11, 12, 13, 14, 16, 17, 18, 19, 20]"
  unfolding querySelectorAll_def matrix_built_fresh
  unfolding matrix_built_def
  by (simp add: descendants_numeral descendants_Suc matrix_second matrix_first matrix_first_fresh
      matrix_nodes matrix_fields blank_def demo_opts_fields wrapperElem_def starElem_def
      del: descendants.simps(2))

lemma matrix_second_wrapper:
  "childNodes (nodes matrix_built 15) = [16, 17, 18, 19, 20]"
  "parentNode (nodes matrix_built 15) = Some 8"
  "getAttribute matrix_built 16 ''data-value'' = Some (show_int 1)"
  unfolding matrix_built_def
  by (simp_all add: getAttribute_def matrix_second matrix_first_fresh demo_opts_fields
      wrapperElem_def starElem_def)

text \<open>
  C9. The claim is that the icon with index \<open>idx\<close> of a control gets
  \<^verbatim>\<open>colors[idx]\<close> when \<open>idx\<close> is within the list. On a question with two rows,
  each with a control of five icons, and the five default colours, the first icon of the
  second row (element 16, \<^verbatim>\<open>data-value\<close> 1, index 0 of its control) gets the last
  colour \<^verbatim>\<open>#66c2ff\<close> and not \<^verbatim>\<open>colors[0]\<close>, and so do all icons of
  that row. \<^verbatim>\<open>applyColorGradient\<close> takes \<^verbatim>\<open>idx\<close> from the list of all
  icons of the question (\<^verbatim>\<open>q.querySelectorAll('img.starutils-star')\<close>), not from
  the control of the icon. The same line also passes over an entry that is the empty
  string (\<open>empty_color_skipped\<close> above). On a question with one row and colours that
  are not empty the pass does what the claim says (\<open>colorTask_assigns\<close>,
  \<open>one_row_scenario\<close>).
\<close>

theorem second_row_last_color:
  "querySelectorAll matrix_built 2 (Sel (Some ''img'') (Some ''starutils-star'')) =
     [10, 11, 12, 13, 14, 16, 17, 18, 19, 20] \<and>
   childNodes (nodes matrix_built 15) = [16, 17, 18, 19, 20] \<and>
   parentNode (nodes matrix_built 15) = Some 8 \<and>
   getAttribute matrix_built 16 ''data-value'' = Some (show_int 1) \<and>
   (case colorTask (QElem 2) [''#ff6666'', ''#ff9a4d'', ''#ffd166'', ''#8be28b'', ''#66c2ff'']
           matrix_built of
      Inl e \<Rightarrow> False
    | Inr s' \<Rightarrow>
        style (nodes s' 10) ''backgroundColor'' = ''#ff6666'' \<and>
        style (nodes s' 16) ''backgroundColor'' = ''#66c2ff'' \<and>
        style (nodes s' 20) ''backgroundColor'' = ''#66c2ff'')"
proof -
  have d: "distinct [10, 11, 12, 13, 14, 16, 17, 18, 19, 20::nat]" by simp
  from fold_paint_at [OF d, of 0 "[''#ff6666'', ''#ff9a4d'', ''#ffd166'', ''#8be28b'', ''#66c2ff'']" 0 matrix_built]
    fold_paint_at [OF d, of 5 "[''#ff6666'', ''#ff9a4d'', ''#ffd166'', ''#8be28b'', ''#66c2ff'']" 0 matrix_built]
    fold_paint_at [OF d, of 9 "[''#ff6666'', ''#ff9a4d'', ''#ffd166'', ''#8be28b'', ''#66c2ff'']" 0 matrix_built]
  show ?thesis
    by (simp add: colorTask_def matrix_icons matrix_second_wrapper colorAt_cases)
qed

subsection \<open>Running applySpacing again\<close>

lemma detach_fields [simp]:
  "fresh (detach el s) = fresh s"
  "attributes (nodes (detach el s) x) = attributes (nodes s x)"
  by (simp_all add: detach_def split: option.splits)

lemma detach_childNodes:
  "childNodes (nodes (detach el s) x) =
     (if parentNode (nodes s el) = Some x then remove1 el (childNodes (nodes s x))
      else childNodes (nodes s x))"
  by (simp add: detach_def split: option.splits)

lemma fold_orphan_nodes:
  "nodes (fold (\<lambda>k. upd k (\<lambda>e. e\<lparr>parentNode := None\<rparr>)) ks s) x =
     (if x \<in> set ks then (nodes s x)\<lparr>parentNode := None\<rparr> else nodes s x)"
  by (induction ks arbitrary: s) auto

lemma fold_orphan_fresh [simp]:
  "fresh (fold (\<lambda>k. upd k (\<lambda>e. e\<lparr>parentNode := None\<rparr>)) ks s) = fresh s"
  by (induction ks arbitrary: s) auto

lemma clearChildren_fields [simp]:
  "fresh (clearChildren c s) = fresh s"
  "attributes (nodes (clearChildren c s) x) = attributes (nodes s x)"
  by (simp_all add: clearChildren_def fold_orphan_nodes)

lemma clearChildren_childNodes:
  "childNodes (nodes (clearChildren c s) x) = (if x = c then [] else childNodes (nodes s x))"
  by (simp add: clearChildren_def fold_orphan_nodes)

lemma setStyle_attributes [simp]:
  "attributes (nodes (setStyle r a v s) x) = attributes (nodes s x)"
  "childNodes (nodes (setStyle r a v s) x) = childNodes (nodes s x)"
  by (simp_all add: setStyle_nodes)

lemma removeFirst_fields [simp]:
  "fresh (removeFirst c sel s) = fresh s"
  "attributes (nodes (removeFirst c sel s) x) = attributes (nodes s x)"
  by (simp_all add: removeFirst_def split: option.splits)

lemma removeFirst_empty:
  "childNodes (nodes s x) = [] \<Longrightarrow> childNodes (nodes (removeFirst c sel s) x) = []"
  by (simp add: removeFirst_def detach_childNodes split: option.splits)

lemma fold_removeFirst_fields [simp]:
  "fresh (fold (removeFirst c) sels s) = fresh s"
  "attributes (nodes (fold (removeFirst c) sels s) x) = attributes (nodes s x)"
  by (induction sels arbitrary: s) simp_all

lemma fold_removeFirst_empty:
  "childNodes (nodes s x) = [] \<Longrightarrow> childNodes (nodes (fold (removeFirst c) sels s) x) = []"
  by (induction sels arbitrary: s) (simp_all add: removeFirst_empty)

lemma stripContainer_fields [simp]:
  "fresh (stripContainer c s) = fresh s"
  "attributes (nodes (stripContainer c s) x) = attributes (nodes s x)"
  by (simp_all add: stripContainer_def)

lemma stripContainer_self: "childNodes (nodes (stripContainer c s) c) = []"
  by (simp add: stripContainer_def clearChildren_childNodes)

lemma stripContainer_empty:
  "childNodes (nodes s x) = [] \<Longrightarrow> childNodes (nodes (stripContainer c s) x) = []"
  by (simp add: stripContainer_def clearChildren_childNodes removeFirst_empty)

lemma fold_strip_fields [simp]:
  "fresh (fold stripContainer cs s) = fresh s"
  "attributes (nodes (fold stripContainer cs s) x) = attributes (nodes s x)"
  by (induction cs arbitrary: s) simp_all

lemma fold_strip_empty:
  "childNodes (nodes s x) = [] \<Longrightarrow> childNodes (nodes (fold stripContainer cs s) x) = []"
  by (induction cs arbitrary: s) (simp_all add: stripContainer_empty)

lemma fold_strip_member:
  "c \<in> set cs \<Longrightarrow> childNodes (nodes (fold stripContainer cs s) c) = []"
proof (induction cs arbitrary: s)
  case Nil
  then show ?case by simp
next
  case (Cons x cs)
  show ?case
  proof (cases "x = c")
    case True
    then show ?thesis by (simp add: fold_strip_empty stripContainer_self)
  next
    case False
    with Cons show ?thesis by simp
  qed
qed

lemma getQuestionContainer_arg_of [simp]: "getQuestionContainer s (arg_of q) = Some q"
  by (cases q) (simp_all add: getQuestionContainer_def arg_of_def)

lemma removeNativeStars_built_empty:
  assumes "c < fresh s" and "getAttribute s c ''data-starutils-built'' = Some ''1''"
    and "c \<in> set (qsAll s q (by_class ''StarsContainer''))"
  shows "built_empty c (removeNativeStars s (arg_of q))"
  using assms by (simp add: built_empty_def removeNativeStars_def getAttribute_def fold_strip_member)

lemma build_keeps_built_empty:
  assumes "built_empty c s"
  shows "built_empty c (snd (buildCustomStarsForContainer s (Some x) opts))"
proof (cases "getAttribute s x ''data-starutils-built'' = Some ''1''")
  case True
  with assms show ?thesis by (simp add: build_built)
next
  case False
  with assms have xc: "x \<noteq> c" by (auto simp: built_empty_def)
  have c: "c < fresh s" using assms by (simp add: built_empty_def)
  have "nodes (snd (buildCustomStarsForContainer s (Some x) opts)) c = nodes s c"
    using build_old [OF c] xc by simp
  with assms build_fresh [OF False, of opts] show ?thesis
    by (simp add: built_empty_def getAttribute_def)
qed

lemma spacingRow_built_empty:
  assumes "built_empty c s"
  shows "built_empty c (spacingRow sp sz n x s)"
proof -
  let ?s3 = "setStyle x ''verticalAlign'' ''middle''
     (setStyle x ''display'' ''inline-block'' (clearChildren x s))"
  have "built_empty c ?s3"
    using assms by (simp add: built_empty_def getAttribute_def clearChildren_childNodes)
  then have "built_empty c (snd (buildCustomStarsForContainer ?s3 (Some x)
      \<lparr>o_spacing = sp, o_starSize = sz, o_numStars = n, o_starIcon = None\<rparr>))"
    by (rule build_keeps_built_empty)
  then show ?thesis
    by (simp add: spacingRow_def Let_def built_empty_def getAttribute_def split: option.splits)
qed

lemma fold_spacingRow_built_empty:
  "built_empty c s \<Longrightarrow> built_empty c (fold (spacingRow sp sz n) cs s)"
  by (induction cs arbitrary: s) (simp_all add: spacingRow_built_empty)

text \<open>
  C6. When \<^verbatim>\<open>applySpacing\<close>'s timer runs on a page where a container \<open>c\<close> of the
  question is already marked as built, the container ends with no children, so with no
  icon below it, and still marked: \<^verbatim>\<open>removeNativeStars\<close> and the loop both clear
  it, and the builder returns at the mark without building again.
\<close>

theorem spacing_again_leaves_no_icons:
  assumes "c < fresh s" and "getAttribute s c ''data-starutils-built'' = Some ''1''"
    and "c \<in> set (qsAll s q (by_class ''StarsContainer''))"
  shows "childNodes (nodes (spacingTask q sp sz n s) c) = [] \<and>
    querySelectorAll (spacingTask q sp sz n s) c (Sel (Some ''img'') (Some ''starutils-star'')) = [] \<and>
    getAttribute (spacingTask q sp sz n s) c ''data-starutils-built'' = Some ''1''"
proof -
  have "built_empty c (spacingTask q sp sz n s)"
    unfolding spacingTask_def Let_def
    by (intro fold_spacingRow_built_empty removeNativeStars_built_empty assms)
  then show ?thesis
    by (simp add: built_empty_def querySelectorAll_def descendants_leaf)
qed

lemma demo_containers:
  "qsAll (snd (buildCustomStarsForContainer demo (Some 5) demo_opts)) (QElem 2)
     (by_class ''StarsContainer'') = [5]"
proof -
  have h1: "5 < fresh demo" by (simp add: demo_fields)
  note bn = build_nodes [OF demo_unbuilt h1, of demo_opts]
  have fr: "fresh (snd (buildCustomStarsForContainer demo (Some 5) demo_opts)) = 15"
    using build_fresh [OF demo_unbuilt, of demo_opts] by (simp add: demo_fields demo_opts_fields)
  show ?thesis
    unfolding qsAll_def querySelectorAll_def fr
    by (simp add: descendants_numeral descendants_Suc bn demo_nodes demo_fields blank_def
        demo_opts_fields wrapperElem_def starElem_def del: descendants.simps(2))
qed

theorem spacing_again_leaves_no_icons_witness:
  "5 < fresh (snd (buildCustomStarsForContainer demo (Some 5) demo_opts)) \<and>
   getAttribute (snd (buildCustomStarsForContainer demo (Some 5) demo_opts)) 5
     ''data-starutils-built'' = Some ''1'' \<and>
   5 \<in> set (qsAll (snd (buildCustomStarsForContainer demo (Some 5) demo_opts)) (QElem 2)
     (by_class ''StarsContainer'')) \<and>
   childNodes (nodes (spacingTask (QElem 2) 20 30 5
     (snd (buildCustomStarsForContainer demo (Some 5) demo_opts))) 5) = []"
proof -
  have h0: "5 < fresh demo" by (simp add: demo_fields)
  have h1: "5 < fresh (snd (buildCustomStarsForContainer demo (Some 5) demo_opts))"
    using build_fresh [OF demo_unbuilt, of demo_opts] by (simp add: demo_fields)
  have h2: "getAttribute (snd (buildCustomStarsForContainer demo (Some 5) demo_opts)) 5
     ''data-starutils-built'' = Some ''1''"
    by (simp add: getAttribute_def build_nodes [OF demo_unbuilt h0])
  have h3: "5 \<in> set (qsAll (snd (buildCustomStarsForContainer demo (Some 5) demo_opts)) (QElem 2)
     (by_class ''StarsContainer''))"
    by (simp add: demo_containers)
  from spacing_again_leaves_no_icons [OF h1 h2 h3, of 20 30 5] show ?thesis
    using h1 h2 h3 by simp
qed

subsection \<open>Labels\<close>



lemma labelPrep_fields [simp]:
  "fresh (labelPrep lt rt t) = Suc (Suc (Suc (fresh t)))"
  "x < fresh t \<Longrightarrow> nodes (labelPrep lt rt t) x = nodes t x"
  "nodes (labelPrep lt rt t) (fresh t) = (flexElem 0 [])\<lparr>parentNode := None\<rparr>"
  "nodes (labelPrep lt rt t) (Suc (fresh t)) =
     (labelElem ''star-label-left'' ''right'' lt 0)\<lparr>parentNode := None\<rparr>"
  "nodes (labelPrep lt rt t) (Suc (Suc (fresh t))) =
     (labelElem ''star-label-right'' ''left'' rt 0)\<lparr>parentNode := None\<rparr>"
  by (simp_all add: labelPrep_def)












































end
